theory Spec2Isabelle
  imports Complex_Main
begin

section \<open>JavaScript strings and the regular expressions of the rule parser\<close>

text \<open>
  A JavaScript string is a sequence of UTF-16 code units. The rule text is modelled as the
  list of its code units, each a natural number; \<open>js\<close> embeds an ASCII literal.
  The regular expressions of \<open>parseRuleText\<close> (backend) and \<open>parseCustomRule\<close>
  (frontend) carry the flag \<open>i\<close> and not the flag \<open>u\<close>, so they work on code units.
\<close>

type_synonym jsstring = "nat list"

definition js :: "string \<Rightarrow> jsstring" where
  "js s = map of_char s"

text \<open>
  Character classes. \<open>Digit\<close> is \<open>\d\<close>, \<open>Space\<close> is \<open>\s\<close>, \<open>Dot\<close> is \<open>.\<close> (everything
  but the four line terminators), \<open>OneOf\<close> is a bracket of literal code units and
  \<open>Either\<close> the union of two classes inside one bracket.
\<close>

datatype cls = Digit | Space | Dot | OneOf "nat list" | Either cls cls

definition is_digit :: "nat \<Rightarrow> bool" where
  "is_digit c = (48 \<le> c \<and> c \<le> 57)"

definition is_space :: "nat \<Rightarrow> bool" where
  "is_space c =
     (c \<in> set [9, 10, 11, 12, 13, 32, 160, 5760, 8232, 8233, 8239, 8287, 12288, 65279]
      \<or> (8192 \<le> c \<and> c \<le> 8202))"

definition is_line_terminator :: "nat \<Rightarrow> bool" where
  "is_line_terminator c = (c \<in> set [10, 13, 8232, 8233])"

definition is_word_char :: "nat \<Rightarrow> bool" where
  "is_word_char c = ((48 \<le> c \<and> c \<le> 57) \<or> (65 \<le> c \<and> c \<le> 90) \<or> c = 95 \<or> (97 \<le> c \<and> c \<le> 122))"

fun cls_mem :: "cls \<Rightarrow> nat \<Rightarrow> bool" where
  "cls_mem Digit c = is_digit c"
| "cls_mem Space c = is_space c"
| "cls_mem Dot c = (\<not> is_line_terminator c)"
| "cls_mem (OneOf cs) c = (c \<in> set cs)"
| "cls_mem (Either a b) c = (cls_mem a c \<or> cls_mem b c)"

text \<open>
  Under the flag \<open>i\<close> a pattern letter matches the code unit of its lower-case and of its
  upper-case form. Without the flag \<open>u\<close> no code unit above 127 is canonicalised to an
  ASCII letter, so these two are the only ones.
\<close>

definition ci_eq :: "char \<Rightarrow> nat \<Rightarrow> bool" where
  "ci_eq p c =
     (let n = of_char p in
      c = n \<or> (97 \<le> n \<and> n \<le> 122 \<and> c = n - 32) \<or> (65 \<le> n \<and> n \<le> 90 \<and> c = n + 32))"

text \<open>
  The patterns. Every quantifier of the five source patterns is applied to a single
  character class, so the quantifiers take a class: \<open>Star\<close> is the greedy \<open>*\<close>,
  \<open>Plus\<close> the greedy \<open>+\<close>, \<open>LazyStar\<close> is \<open>*?\<close>. \<open>Str\<close> is a run of pattern letters,
  \<open>Grp n\<close> the n-th capturing group, \<open>WordB\<close> is \<open>\b\<close>.
\<close>

datatype rx =
    Eps
  | Atom cls
  | Str string
  | Cat rx rx
  | Alt rx rx
  | Grp nat rx
  | Star cls
  | Plus cls
  | LazyStar cls
  | WordB

text \<open>
  A matcher state: the input already consumed (most recent code unit first), the input
  still to read, and the captures made so far.
\<close>

type_synonym mstate = "nat list \<times> nat list \<times> (nat \<times> jsstring) list"

fun str_states :: "string \<Rightarrow> mstate \<Rightarrow> mstate list" where
  "str_states [] s = [s]"
| "str_states (p # ps) (pre, [], caps) = []"
| "str_states (p # ps) (pre, c # cs, caps) =
     (if ci_eq p c then str_states ps (c # pre, cs, caps) else [])"

text \<open>
  The states reachable by reading zero or more code units of a class, fewest first: the
  order in which a lazy quantifier tries them. The greedy quantifier tries them in the
  reverse order.
\<close>

fun run_states :: "cls \<Rightarrow> nat list \<Rightarrow> nat list \<Rightarrow> (nat \<times> jsstring) list \<Rightarrow> mstate list" where
  "run_states k pre [] caps = [(pre, [], caps)]"
| "run_states k pre (c # cs) caps =
     (pre, c # cs, caps) # (if cls_mem k c then run_states k (c # pre) cs caps else [])"

definition at_word_boundary :: "nat list \<Rightarrow> nat list \<Rightarrow> bool" where
  "at_word_boundary pre rest =
     ((case pre of [] \<Rightarrow> False | a # _ \<Rightarrow> is_word_char a)
      \<noteq> (case rest of [] \<Rightarrow> False | b # _ \<Rightarrow> is_word_char b))"

text \<open>
  \<open>ms r s\<close> lists the states in which a match of \<open>r\<close> started in \<open>s\<close> can end, in the
  order in which the backtracking matcher of the language tries them: the first element
  is the match the engine reports.
\<close>

fun ms :: "rx \<Rightarrow> mstate \<Rightarrow> mstate list" where
  "ms Eps s = [s]"
| "ms (Atom k) (pre, rest, caps) =
     (case rest of [] \<Rightarrow> [] | c # cs \<Rightarrow> if cls_mem k c then [(c # pre, cs, caps)] else [])"
| "ms (Str ps) s = str_states ps s"
| "ms (Cat a b) s = concat (map (ms b) (ms a s))"
| "ms (Alt a b) s = ms a s @ ms b s"
| "ms (Grp n a) (pre, rest, caps) =
     map (\<lambda>(pre', rest', caps').
            (pre', rest', (n, take (length pre' - length pre) rest) # caps'))
         (ms a (pre, rest, caps))"
| "ms (Star k) (pre, rest, caps) = rev (run_states k pre rest caps)"
| "ms (Plus k) (pre, rest, caps) =
     (case rest of [] \<Rightarrow> []
      | c # cs \<Rightarrow> if cls_mem k c then rev (run_states k (c # pre) cs caps) else [])"
| "ms (LazyStar k) (pre, rest, caps) = run_states k pre rest caps"
| "ms WordB (pre, rest, caps) = (if at_word_boundary pre rest then [(pre, rest, caps)] else [])"

text \<open>
  \<open>String.prototype.match\<close> with a pattern that has no flag \<open>g\<close>: the leftmost start
  position at which the pattern matches, and there the first match in backtracking
  order. The result is \<open>None\<close> for JavaScript's \<open>null\<close>, otherwise the captures.
\<close>

fun search :: "rx \<Rightarrow> nat list \<Rightarrow> nat list \<Rightarrow> (nat \<times> jsstring) list option" where
  "search r pre [] = (case ms r (pre, [], []) of [] \<Rightarrow> None | (_, _, caps) # _ \<Rightarrow> Some caps)"
| "search r pre (c # cs) =
     (case ms r (pre, c # cs, []) of
        [] \<Rightarrow> search r (c # pre) cs
      | (_, _, caps) # _ \<Rightarrow> Some caps)"

definition match :: "jsstring \<Rightarrow> rx \<Rightarrow> (nat \<times> jsstring) list option" where
  "match text r = search r [] text"

text \<open>
  \<open>m[n]\<close> on a match result. In each of the five patterns every group takes part in every
  match, so the lookup always finds the group; the empty string stands for a group that
  is not there.
\<close>

definition grp :: "(nat \<times> jsstring) list \<Rightarrow> nat \<Rightarrow> jsstring" where
  "grp caps n = (case map_of caps n of None \<Rightarrow> [] | Some s \<Rightarrow> s)"

text \<open>\<open>a || b\<close> on two match results: \<open>b\<close> is evaluated only when \<open>a\<close> is \<open>null\<close>.\<close>

definition or_else :: "'a option \<Rightarrow> 'a option \<Rightarrow> 'a option" where
  "or_else a b = (case a of None \<Rightarrow> b | Some x \<Rightarrow> Some x)"

text \<open>
  The numbers of the rules. They are doubles. \<open>Num n\<close> is the integer \<open>n\<close>, which a
  double holds exactly when \<open>n < 2^53\<close>. \<open>Huge n\<close> is the double that \<open>parseInt\<close>
  returns for the decimal notation of an integer \<open>n\<close> that is \<open>2^53\<close> or more: a double
  of at least \<open>2^53\<close>, or \<open>Infinity\<close>. Which double it is depends on the rounding of the
  engine and is left open.
\<close>

datatype jsnum = Num nat | Huge nat

text \<open>The integer that a string of decimal digits writes.\<close>

definition decimal :: "jsstring \<Rightarrow> nat" where
  "decimal ds = foldl (\<lambda>n d. 10 * n + (d - 48)) 0 ds"

text \<open>\<open>parseInt\<close> on a captured \<open>\d+\<close>; \<open>9007199254740992\<close> is \<open>2^53\<close>.\<close>

definition parseInt :: "jsstring \<Rightarrow> jsnum" where
  "parseInt ds = (if decimal ds < 9007199254740992 then Num (decimal ds) else Huge (decimal ds))"

text \<open>\<open>toLowerCase\<close> and \<open>toUpperCase\<close>, applied by the source to format names only.\<close>

definition toLowerCase :: "jsstring \<Rightarrow> jsstring" where
  "toLowerCase s = map (\<lambda>c. if 65 \<le> c \<and> c \<le> 90 then c + 32 else c) s"

definition toUpperCase :: "jsstring \<Rightarrow> jsstring" where
  "toUpperCase s = map (\<lambda>c. if 97 \<le> c \<and> c \<le> 122 then c - 32 else c) s"

subsection \<open>The five patterns\<close>

text \<open>\<open>/(\d+)\s*x\s*(\d+)/i\<close>\<close>

definition rx_dims :: rx where
  "rx_dims =
     Cat (Grp 1 (Plus Digit)) (Cat (Star Space) (Cat (Str ''x'') (Cat (Star Space)
       (Grp 2 (Plus Digit)))))"

text \<open>\<open>/width[:\s]+(\d+).*height[:\s]+(\d+)/i\<close>\<close>

definition rx_width_height :: rx where
  "rx_width_height =
     Cat (Str ''width'') (Cat (Plus (Either (OneOf [58]) Space)) (Cat (Grp 1 (Plus Digit))
       (Cat (Star Dot) (Cat (Str ''height'') (Cat (Plus (Either (OneOf [58]) Space))
         (Grp 2 (Plus Digit)))))))"

text \<open>
  \<open>/(\d+)\s*[-...]\s*(\d+)\s*kb/i\<close>, with the bracket as a parameter. In the frontend
  the bracket holds the hyphen (45) and the en dash U+2013 (8211). In the backend file the
  en dash is stored as the three characters U+00E2, U+20AC, U+201C, so the bracket holds
  the hyphen and these three (226, 8364, 8220); under the flag \<open>i\<close> the bracket also
  accepts U+00C2 (194), the upper-case form of U+00E2.
\<close>

definition rx_range :: "nat list \<Rightarrow> rx" where
  "rx_range dashes =
     Cat (Grp 1 (Plus Digit)) (Cat (Star Space) (Cat (Atom (OneOf dashes)) (Cat (Star Space)
       (Cat (Grp 2 (Plus Digit)) (Cat (Star Space) (Str ''kb''))))))"

definition frontend_dashes :: "nat list" where
  "frontend_dashes = [45, 8211]"

definition backend_dashes :: "nat list" where
  "backend_dashes = [45, 226, 194, 8364, 8220]"

text \<open>\<open>/size[:\s]+(\d+).*?(\d+)\s*kb/i\<close>\<close>

definition rx_size :: rx where
  "rx_size =
     Cat (Str ''size'') (Cat (Plus (Either (OneOf [58]) Space)) (Cat (Grp 1 (Plus Digit))
       (Cat (LazyStar Dot) (Cat (Grp 2 (Plus Digit)) (Cat (Star Space) (Str ''kb''))))))"

text \<open>\<open>/\b(jpg|jpeg|png)\b/i\<close>\<close>

definition rx_format :: rx where
  "rx_format = Cat WordB (Cat (Grp 1 (Alt (Str ''jpg'') (Alt (Str ''jpeg'') (Str ''png'')))) WordB)"

section \<open>Rule derivation\<close>

record rules =
  width :: jsnum
  height :: jsnum
  minKb :: jsnum
  maxKb :: jsnum
  format :: jsstring

text \<open>
  The body shared by \<open>parseRuleText\<close> (backend) and \<open>parseCustomRule\<close> (frontend); the
  two differ in the bracket of the size-range pattern only.
\<close>

definition widthMatch :: "jsstring \<Rightarrow> (nat \<times> jsstring) list option" where
  "widthMatch text = or_else (match text rx_dims) (match text rx_width_height)"

definition sizeMatch :: "nat list \<Rightarrow> jsstring \<Rightarrow> (nat \<times> jsstring) list option" where
  "sizeMatch dashes text = or_else (match text (rx_range dashes)) (match text rx_size)"

definition formatMatch :: "jsstring \<Rightarrow> (nat \<times> jsstring) list option" where
  "formatMatch text = match text rx_format"

definition parse_rules :: "nat list \<Rightarrow> jsstring \<Rightarrow> rules" where
  "parse_rules dashes text =
     \<lparr> width = (case widthMatch text of Some m \<Rightarrow> parseInt (grp m 1) | None \<Rightarrow> Num 200),
       height = (case widthMatch text of Some m \<Rightarrow> parseInt (grp m 2) | None \<Rightarrow> Num 230),
       minKb = (case sizeMatch dashes text of Some m \<Rightarrow> parseInt (grp m 1) | None \<Rightarrow> Num 20),
       maxKb = (case sizeMatch dashes text of Some m \<Rightarrow> parseInt (grp m 2) | None \<Rightarrow> Num 50),
       format = (case formatMatch text of Some m \<Rightarrow> toLowerCase (grp m 1) | None \<Rightarrow> js ''jpg'') \<rparr>"

definition parseRuleText :: "jsstring \<Rightarrow> rules" where
  "parseRuleText ruleText = parse_rules backend_dashes ruleText"

definition parseCustomRule :: "jsstring \<Rightarrow> rules" where
  "parseCustomRule text = parse_rules frontend_dashes text"

subsection \<open>Looking a preset up\<close>

text \<open>
  The value of the variable \<open>rules\<close> in both programs. It is a rules object, from the
  parser or from the table of presets; or \<open>undefined\<close>; or, when the preset names a
  property that every object inherits from \<open>Object.prototype\<close>, that property: a function
  (or, for \<open>__proto__\<close>, the prototype itself), which has none of the five fields.
\<close>

datatype jsrules = Undefined | Inherited | Rules rules

text \<open>The names of the properties of \<open>Object.prototype\<close>.\<close>

definition object_prototype_keys :: "jsstring list" where
  "object_prototype_keys =
     map js [''constructor'', ''__defineGetter__'', ''__defineSetter__'', ''hasOwnProperty'',
             ''__lookupGetter__'', ''__lookupSetter__'', ''isPrototypeOf'',
             ''propertyIsEnumerable'', ''toString'', ''valueOf'', ''__proto__'',
             ''toLocaleString'']"

text \<open>
  \<open>table[key]\<close> on an object literal: the entry of the literal with that key, else the
  inherited property of that name, else \<open>undefined\<close>.
\<close>

definition lookup :: "(jsstring \<times> rules) list \<Rightarrow> jsstring \<Rightarrow> jsrules" where
  "lookup table key =
     (case map_of table key of
        Some r \<Rightarrow> Rules r
      | None \<Rightarrow> if key \<in> set object_prototype_keys then Inherited else Undefined)"

text \<open>
  \<open>rules.f\<close> for one of the five fields \<open>f\<close>, where \<open>rules\<close> is not \<open>undefined\<close>: the
  field of a rules object, and \<open>undefined\<close> (here \<open>None\<close>) on an inherited property.
  The programs read a field of \<open>undefined\<close> nowhere but where they throw for it.
\<close>

fun field :: "(rules \<Rightarrow> 'a) \<Rightarrow> jsrules \<Rightarrow> 'a option" where
  "field f (Rules r) = Some (f r)"
| "field f Inherited = None"
| "field f Undefined = None"

section \<open>The image library and the trace of its calls\<close>

text \<open>
  Errors are values. \<open>TypeError\<close> is what the language raises on a property read of
  \<open>undefined\<close> or \<open>null\<close>; \<open>LibraryError\<close> is a rejection by the image library (an
  unreadable source, a dimension it refuses, an encoder failure); \<open>ENOENT\<close> is
  \<open>fs.unlink\<close> on a file that does not exist.
\<close>

datatype error = TypeError | LibraryError | ENOENT

text \<open>
  The calls made to the image library, in the order in which the program makes them:
  a resize to a width and a height, and an encoding under a format name at a quality.
  The trace of these calls is no variable of the program; it is kept beside the
  variables to say how often, and with which arguments, the program calls the library.
\<close>

datatype 'q call = Resize "jsnum option" "jsnum option" | Encode jsstring 'q

fun is_resize :: "'q call \<Rightarrow> bool" where
  "is_resize (Resize w h) = True"
| "is_resize (Encode f q) = False"

fun is_encode :: "'q call \<Rightarrow> bool" where
  "is_encode (Resize w h) = False"
| "is_encode (Encode f q) = True"

definition resizes :: "'q call list \<Rightarrow> nat" where
  "resizes cs = length (filter is_resize cs)"

definition encodes :: "'q call list \<Rightarrow> nat" where
  "encodes cs = length (filter is_encode cs)"

text \<open>
  The backend's library, \<open>sharp\<close>, as the program uses it. \<open>toBuffer env p w h m q\<close> is
  \<open>sharp(p).resize(w, h, {fit: 'fill'})[m]({quality: q}).toBuffer()\<close>: the encoded buffer,
  or a rejection. The width and the height are numbers or \<open>undefined\<close> (\<open>None\<close>).
  \<open>blength\<close> is \<open>buffer.length\<close>, the number of bytes, which is below \<open>2^53\<close>, and
  \<open>metadata\<close> is \<open>sharp(buffer).metadata()\<close>, of which the program reads the width and the
  height. The type \<open>'b\<close> of buffers is left open.
\<close>

record 'b sharp =
  toBuffer :: "string \<Rightarrow> jsnum option \<Rightarrow> jsnum option \<Rightarrow> jsstring \<Rightarrow> int \<Rightarrow> error + 'b"
  blength :: "'b \<Rightarrow> nat"
  metadata :: "'b \<Rightarrow> error + nat \<times> nat"

text \<open>
  The frontend's library, the canvas. \<open>toBlob env w h t q\<close> is \<open>canvas.toBlob\<close> with mime
  type \<open>t\<close> and quality \<open>q\<close> on the canvas whose \<open>width\<close> and \<open>height\<close> were set to \<open>w\<close> and
  \<open>h\<close> (numbers or \<open>undefined\<close>) and onto which the image was drawn with these
  dimensions; it yields a blob or \<open>null\<close>. \<open>bsize\<close> is \<open>blob.size\<close>. \<open>loads\<close> says whether
  the \<open>onload\<close> event of the uploaded image ever fires, which the program awaits
  before it creates the canvas.
\<close>

record 'b canvas =
  loads :: bool
  toBlob :: "jsnum option \<Rightarrow> jsnum option \<Rightarrow> jsstring \<Rightarrow> rat \<Rightarrow> 'b option"
  bsize :: "'b \<Rightarrow> nat"

text \<open>\<open>format === 'jpg' ? 'jpeg' : format\<close>\<close>

definition encoder_name :: "jsstring \<Rightarrow> jsstring" where
  "encoder_name fmt = (if fmt = js ''jpg'' then js ''jpeg'' else fmt)"

text \<open>
  The parameter \<open>format = 'jpeg'\<close> of \<open>processImage\<close>: the default stands in for an
  argument that is \<open>undefined\<close>.
\<close>

definition format_or_default :: "jsstring option \<Rightarrow> jsstring" where
  "format_or_default fmt = (case fmt of None \<Rightarrow> js ''jpeg'' | Some f \<Rightarrow> f)"

section \<open>The quality search\<close>

text \<open>
  The local variables of the loop, in both programs, and the trace of library calls.
  The field \<open>outbuf\<close> is the variable \<open>output\<close> of the backend and \<open>blob\<close> of the
  frontend. The backend's quality is an integer. The frontend's quality is a double; it
  is modelled by exact rational arithmetic, and so are the sizes in kilobytes, which are
  exact in double arithmetic (a byte count divided by \<open>1024\<close>). \<open>Math.max\<close> and
  \<open>Math.min\<close> do not round, so the clamp of the frontend holds in double arithmetic as it
  does here.
\<close>

record ('q, 'b) search_state =
  quality :: 'q
  outbuf :: "'b option"
  attempts :: nat
  calls :: "'q call list"

definition maxAttempts :: nat where
  "maxAttempts = 20"

text \<open>
  The comparisons of a size in kilobytes with a bound of the rules: \<open><=\<close>, \<open>>=\<close>, \<open>>\<close>
  and \<open><\<close>. Against \<open>undefined\<close> every comparison is false. A size is a byte count below
  \<open>2^53\<close> divided by \<open>1024\<close>, so it is below every \<open>Huge\<close> bound. The properties
  stated of a window further down are stated for bounds that are \<open>Num\<close>.
\<close>

fun js_le :: "rat \<Rightarrow> jsnum option \<Rightarrow> bool" where
  "js_le s None = False"
| "js_le s (Some (Num n)) = (s \<le> of_nat n)"
| "js_le s (Some (Huge n)) = True"

fun js_ge :: "rat \<Rightarrow> jsnum option \<Rightarrow> bool" where
  "js_ge s None = False"
| "js_ge s (Some (Num n)) = (s \<ge> of_nat n)"
| "js_ge s (Some (Huge n)) = False"

fun js_gt :: "rat \<Rightarrow> jsnum option \<Rightarrow> bool" where
  "js_gt s None = False"
| "js_gt s (Some (Num n)) = (s > of_nat n)"
| "js_gt s (Some (Huge n)) = False"

fun js_lt :: "rat \<Rightarrow> jsnum option \<Rightarrow> bool" where
  "js_lt s None = False"
| "js_lt s (Some (Num n)) = (s < of_nat n)"
| "js_lt s (Some (Huge n)) = True"

text \<open>
  The window test \<open>sizeKb <= maxKb && sizeKb >= minKb\<close>: line 81 of the backend and line
  152 of the frontend. Both programs compute \<open>valid\<close> by the same expression, the backend
  (line 148) on the size rounded to two decimals, the frontend (line 175) on the size.
\<close>

definition in_window :: "rat \<Rightarrow> jsnum option \<Rightarrow> jsnum option \<Rightarrow> bool" where
  "in_window sizeKb minKb' maxKb' = (js_le sizeKb maxKb' \<and> js_ge sizeKb minKb')"

text \<open>Backend, lines 83 to 91: the adjustment of the quality and its clamp.\<close>

definition adjust_quality :: "rat \<Rightarrow> jsnum option \<Rightarrow> jsnum option \<Rightarrow> int \<Rightarrow> int" where
  "adjust_quality sizeKb minKb' maxKb' q =
     (let q' = (if js_gt sizeKb maxKb' then q - 5
                else if js_lt sizeKb minKb' then q + 3
                else q)
      in max 10 (min 100 q'))"

text \<open>
  Frontend, lines 156 to 162: the same on the scale from 0 to 1, with an \<open>else\<close> that has
  no condition. The program adds and subtracts in doubles, the model in rationals: a
  quality of the model is the quality of the program up to the rounding of these sums
  (\<open>0.92 + 0.02\<close> is \<open>0.9400000000000001\<close> in the program).
\<close>

definition adjust_quality_client :: "rat \<Rightarrow> jsnum option \<Rightarrow> jsnum option \<Rightarrow> rat \<Rightarrow> rat" where
  "adjust_quality_client sizeKb minKb' maxKb' q =
     (let q' = (if js_gt sizeKb maxKb' then q - 5 / 100 else q + 2 / 100)
      in max (1 / 10) (min 1 q'))"

text \<open>
  The \<open>while\<close> loop of \<open>processImage\<close>. It returns the final state and the error thrown
  out of the loop, if any. The resize is part of the pipeline built in every attempt.
\<close>

function processImage_loop ::
  "'b sharp \<Rightarrow> string \<Rightarrow> jsnum option \<Rightarrow> jsnum option \<Rightarrow> jsnum option \<Rightarrow> jsnum option
     \<Rightarrow> jsstring \<Rightarrow> (int, 'b) search_state \<Rightarrow> (int, 'b) search_state \<times> error option" where
  "processImage_loop env inputPath w h minKb' maxKb' fmt st =
     (if attempts st < maxAttempts then
        (let st1 = st\<lparr>calls := calls st @ [Resize w h, Encode (encoder_name fmt) (quality st)]\<rparr>
         in case toBuffer env inputPath w h (encoder_name fmt) (quality st) of
              Inl e \<Rightarrow> (st1, Some e)
            | Inr out \<Rightarrow>
                (let st2 = st1\<lparr>outbuf := Some out\<rparr>;
                     sizeKb = of_nat (blength env out) / 1024
                 in if in_window sizeKb minKb' maxKb' then (st2, None)
                    else processImage_loop env inputPath w h minKb' maxKb' fmt
                           (st2\<lparr>quality := adjust_quality sizeKb minKb' maxKb' (quality st2),
                                attempts := attempts st2 + 1\<rparr>)))
      else (st, None))"
  by pat_completeness auto
termination
  by (relation "measure (\<lambda>(env, inputPath, w, h, minKb', maxKb', fmt, st). maxAttempts - attempts st)")
     auto

declare processImage_loop.simps [simp del]

text \<open>
  \<open>processImage\<close>: the trace of library calls and either the error thrown or the value
  returned, which is \<open>output\<close> (\<open>null\<close> before the first attempt). Each of the five
  arguments after the path may be \<open>undefined\<close>.
\<close>

definition processImage ::
  "'b sharp \<Rightarrow> string \<Rightarrow> jsnum option \<Rightarrow> jsnum option \<Rightarrow> jsnum option \<Rightarrow> jsnum option
     \<Rightarrow> jsstring option \<Rightarrow> int call list \<times> (error + 'b option)" where
  "processImage env inputPath w h minKb' maxKb' fmt =
     (case processImage_loop env inputPath w h minKb' maxKb' (format_or_default fmt)
             \<lparr>quality = 92, outbuf = None, attempts = 0, calls = []\<rparr> of
        (st, Some e) \<Rightarrow> (calls st, Inl e)
      | (st, None) \<Rightarrow> (calls st, Inr (outbuf st)))"

text \<open>
  The mime type passed to \<open>canvas.toBlob\<close>, a template string: \<open>image/\<close> followed by the
  encoder name, or by \<open>undefined\<close> when the rules have no format.
\<close>

definition mime_type :: "jsrules \<Rightarrow> jsstring" where
  "mime_type r =
     js ''image/'' @ (case field format r of None \<Rightarrow> js ''undefined'' | Some f \<Rightarrow> encoder_name f)"

text \<open>
  The \<open>while\<close> loop of \<open>processClientSide\<close>, lines 145 to 164, for a value of \<open>rules\<close>
  that is not \<open>undefined\<close>. A \<open>null\<close> blob makes \<open>blob.size\<close> throw a \<open>TypeError\<close>.
\<close>

function client_loop ::
  "'b canvas \<Rightarrow> jsrules \<Rightarrow> (rat, 'b) search_state \<Rightarrow> (rat, 'b) search_state \<times> error option" where
  "client_loop env r st =
     (if attempts st < 15 then
        (let st1 = st\<lparr>calls := calls st @ [Encode (mime_type r) (quality st)],
                      outbuf := toBlob env (field width r) (field height r) (mime_type r)
                                  (quality st)\<rparr>
         in case outbuf st1 of
              None \<Rightarrow> (st1, Some TypeError)
            | Some blob \<Rightarrow>
                (let sizeKb = of_nat (bsize env blob) / 1024
                 in if in_window sizeKb (field minKb r) (field maxKb r) then (st1, None)
                    else client_loop env r
                           (st1\<lparr>quality := adjust_quality_client sizeKb (field minKb r)
                                             (field maxKb r) (quality st1),
                                attempts := attempts st1 + 1\<rparr>)))
      else (st, None))"
  by pat_completeness auto
termination
  by (relation "measure (\<lambda>(env, r, st). 15 - attempts st)") auto

declare client_loop.simps [simp del]

section \<open>The backend request handler\<close>

text \<open>The table of lines 110 to 115.\<close>

definition presets :: "(jsstring \<times> rules) list" where
  "presets =
     [(js ''photo'', \<lparr>width = Num 200, height = Num 230, minKb = Num 20, maxKb = Num 50, format = js ''jpg''\<rparr>),
      (js ''signature'', \<lparr>width = Num 140, height = Num 60, minKb = Num 10, maxKb = Num 20, format = js ''jpg''\<rparr>),
      (js ''thumb'', \<lparr>width = Num 140, height = Num 60, minKb = Num 20, maxKb = Num 50, format = js ''jpg''\<rparr>),
      (js ''declaration'', \<lparr>width = Num 800, height = Num 300, minKb = Num 50, maxKb = Num 100, format = js ''jpg''\<rparr>)]"

text \<open>
  The request: \<open>file_path\<close> is \<open>req.file.path\<close> when multer stored a file (\<open>req.file\<close>
  is absent otherwise), and the two body fields, each of which may be absent.
\<close>

record request =
  file_path :: "string option"
  preset :: "jsstring option"
  ruleText :: "jsstring option"

text \<open>A body field is truthy when it is present and not the empty string.\<close>

definition truthy :: "jsstring option \<Rightarrow> bool" where
  "truthy v = (case v of None \<Rightarrow> False | Some t \<Rightarrow> t \<noteq> [])"

definition default_ruleText :: jsstring where
  "default_ruleText = js ''Dimensions 200x230 pixels, size 20-50KB, JPG format''"

text \<open>Lines 108 to 121: the value of \<open>rules\<close>.\<close>

definition request_rules :: "request \<Rightarrow> jsrules" where
  "request_rules req =
     (if truthy (preset req) \<and> preset req \<noteq> Some (js ''custom'') then
        lookup presets (the (preset req))
      else Rules (parseRuleText (if truthy (ruleText req) then the (ruleText req)
                                 else default_ruleText)))"

text \<open>
  \<open>x.toFixed(2)\<close> read back as a number, for \<open>x\<close> not negative: the multiple of \<open>0.01\<close>
  nearest to \<open>x\<close>, the larger one on a tie.
\<close>

definition toFixed2 :: "rat \<Rightarrow> rat" where
  "toFixed2 x = of_int \<lfloor>x * 100 + 1 / 2\<rfloor> / 100"

text \<open>
  What both programs report. The field \<open>sizeKb\<close> is \<open>fileSizeKb\<close> in the backend's
  response, and in the frontend the string that \<open>toFixed(2)\<close> yields, held as the number
  it writes; \<open>image\<close> is the buffer behind \<open>imageBase64\<close> in the backend and the \<open>blob\<close>
  in the frontend; \<open>res_width\<close>, \<open>res_height\<close>, \<open>res_format\<close> are \<open>width\<close>, \<open>height\<close>,
  \<open>format\<close>.
\<close>

record 'b result =
  res_width :: jsnum
  res_height :: jsnum
  sizeKb :: rat
  res_format :: jsstring
  valid :: bool
  image :: 'b

datatype 'b response = Json "'b result" | Status400 | Status500 error

text \<open>
  The uploads directory is the set of the paths of its files. \<open>fs.unlink\<close> removes a file
  that exists and is rejected for one that does not.
\<close>

definition unlink :: "string \<Rightarrow> string set \<Rightarrow> error + string set" where
  "unlink p files = (if p \<in> files then Inr (files - {p}) else Inl ENOENT)"

text \<open>
  The \<open>try\<close> block of the handler after the test of \<open>req.file\<close>, lines 105 to 150: the
  library calls made, the response sent or the error thrown, and the files left. Reading
  \<open>rules.width\<close> for the call of \<open>processImage\<close> throws a \<open>TypeError\<close> when \<open>rules\<close> is
  \<open>undefined\<close>. On an inherited property the five arguments are \<open>undefined\<close>, and the
  \<open>TypeError\<close> is thrown after the unlink, where the response is built, by
  \<open>rules.format.toUpperCase()\<close>. \<open>processImage\<close> returns \<open>null\<close> only if its loop makes
  no attempt, which it always does; that branch is given the error of the library.
\<close>

definition process_try ::
  "'b sharp \<Rightarrow> request \<Rightarrow> string \<Rightarrow> string set
     \<Rightarrow> int call list \<times> (error + 'b response) \<times> string set" where
  "process_try env req p files =
     (case request_rules req of
        Undefined \<Rightarrow> ([], Inl TypeError, files)
      | rules \<Rightarrow>
          (case processImage env p (field width rules) (field height rules) (field minKb rules)
                  (field maxKb rules) (field format rules) of
             (cs, Inl e) \<Rightarrow> (cs, Inl e, files)
           | (cs, Inr None) \<Rightarrow> (cs, Inl LibraryError, files)
           | (cs, Inr (Some processedBuffer)) \<Rightarrow>
               (case metadata env processedBuffer of
                  Inl e \<Rightarrow> (cs, Inl e, files)
                | Inr (mw, mh) \<Rightarrow>
                    (let fileSizeKb = toFixed2 (of_nat (blength env processedBuffer) / 1024)
                     in case unlink p files of
                          Inl e \<Rightarrow> (cs, Inl e, files)
                        | Inr files' \<Rightarrow>
                            (case field format rules of
                               None \<Rightarrow> (cs, Inl TypeError, files')
                             | Some fmt \<Rightarrow>
                                 (cs,
                                  Inr (Json \<lparr>res_width = Num mw, res_height = Num mh,
                                             sizeKb = fileSizeKb,
                                             res_format = toUpperCase fmt,
                                             valid = in_window fileSizeKb (field minKb rules)
                                                       (field maxKb rules),
                                             image = processedBuffer\<rparr>),
                                  files'))))))"

text \<open>
  The handler of \<open>POST /api/process\<close>, lines 99 to 164. The \<open>catch\<close> block unlinks the
  uploaded file and ignores a failure of that unlink.
\<close>

definition process_handler ::
  "'b sharp \<Rightarrow> request \<Rightarrow> string set \<Rightarrow> int call list \<times> 'b response \<times> string set" where
  "process_handler env req files =
     (case file_path req of
        None \<Rightarrow> ([], Status400, files)
      | Some p \<Rightarrow>
          (case process_try env req p files of
             (cs, Inr resp, files') \<Rightarrow> (cs, resp, files')
           | (cs, Inl e, files') \<Rightarrow> (cs, Status500 e, files' - {p})))"

section \<open>The frontend\<close>

text \<open>The table of lines 6 to 12, without the labels shown in the selector.\<close>

definition PRESETS :: "(jsstring \<times> rules) list" where
  "PRESETS =
     [(js ''custom'', \<lparr>width = Num 0, height = Num 0, minKb = Num 0, maxKb = Num 0, format = js ''jpg''\<rparr>),
      (js ''photo'', \<lparr>width = Num 200, height = Num 230, minKb = Num 20, maxKb = Num 50, format = js ''jpg''\<rparr>),
      (js ''signature'', \<lparr>width = Num 140, height = Num 60, minKb = Num 10, maxKb = Num 20, format = js ''jpg''\<rparr>),
      (js ''thumb'', \<lparr>width = Num 140, height = Num 60, minKb = Num 20, maxKb = Num 50, format = js ''jpg''\<rparr>),
      (js ''declaration'', \<lparr>width = Num 800, height = Num 300, minKb = Num 50, maxKb = Num 100, format = js ''jpg''\<rparr>)]"

definition getCurrentRules :: "jsstring \<Rightarrow> jsstring \<Rightarrow> jsrules" where
  "getCurrentRules selectedPreset customRule =
     (if selectedPreset = js ''custom'' \<and> customRule \<noteq> [] then Rules (parseCustomRule customRule)
      else lookup PRESETS selectedPreset)"

text \<open>
  What \<open>processClientSide\<close> leaves behind: nothing when no image is uploaded, a promise
  that never settles when the image never loads, an error message, or a result.
\<close>

datatype 'b client_outcome = NotStarted | Pending | ErrorShown error | ResultSet "'b result"

text \<open>
  \<open>processClientSide\<close>, lines 121 to 183. \<open>uploaded\<close> says whether \<open>uploadedFile\<close> and
  \<open>originalImage\<close> are set. The image is drawn onto the canvas once, before the loop.
  Setting \<open>canvas.width\<close> to \<open>rules.width\<close> throws a \<open>TypeError\<close> when \<open>rules\<close> is
  \<open>undefined\<close>. On an inherited property the fields are \<open>undefined\<close>, and the
  \<open>TypeError\<close> is thrown after the loop, where the result is built, by
  \<open>rules.format.toUpperCase()\<close>.
\<close>

definition processClientSide ::
  "'b canvas \<Rightarrow> bool \<Rightarrow> jsstring \<Rightarrow> jsstring \<Rightarrow> rat call list \<times> 'b client_outcome" where
  "processClientSide env uploaded selectedPreset customRule =
     (if \<not> uploaded then ([], NotStarted)
      else if \<not> loads env then ([], Pending)
      else case getCurrentRules selectedPreset customRule of
             Undefined \<Rightarrow> ([], ErrorShown TypeError)
           | rules \<Rightarrow>
               (case client_loop env rules
                       \<lparr>quality = 92 / 100, outbuf = None, attempts = 0,
                        calls = [Resize (field width rules) (field height rules)]\<rparr> of
                  (st, Some e) \<Rightarrow> (calls st, ErrorShown e)
                | (st, None) \<Rightarrow>
                    (case outbuf st of
                       None \<Rightarrow> (calls st, ErrorShown TypeError)
                     | Some blob \<Rightarrow>
                         (let finalSizeKb = of_nat (bsize env blob) / 1024
                          in case rules of
                               Rules r \<Rightarrow>
                                 (calls st,
                                  ResultSet \<lparr>res_width = width r, res_height = height r,
                                             sizeKb = toFixed2 finalSizeKb,
                                             res_format = toUpperCase (format r),
                                             valid = in_window finalSizeKb (Some (minKb r))
                                                       (Some (maxKb r)),
                                             image = blob\<rparr>)
                             | _ \<Rightarrow> (calls st, ErrorShown TypeError)))))"

section \<open>Stand-ins for the libraries\<close>

text \<open>
  A stand-in for \<open>sharp\<close> on a source image of 1000 by 1000 pixels. As the library
  does, it rejects a quality that is not between 1 and 100, and encodes at every other.
  A buffer is the triple of the width and the height of the image it encodes and of its
  byte count, which is a function of the quality. The image has the width and the height
  asked for; where none is asked for, it keeps that of the source. A stand-in for the
  canvas: a blob is its byte count, and the image loads.
\<close>

fun out_dim :: "jsnum option \<Rightarrow> nat" where
  "out_dim (Some (Num n)) = n"
| "out_dim (Some (Huge n)) = 1000"
| "out_dim None = 1000"

definition stub_sharp :: "(int \<Rightarrow> nat) \<Rightarrow> (nat \<times> nat \<times> nat) sharp" where
  "stub_sharp size_at =
     \<lparr>toBuffer = (\<lambda>p w h m q. if 1 \<le> q \<and> q \<le> 100 then Inr (out_dim w, out_dim h, size_at q)
                               else Inl LibraryError),
      blength = (\<lambda>(w, h, n). n),
      metadata = (\<lambda>(w, h, n). Inr (w, h))\<rparr>"

definition stub_canvas :: "(rat \<Rightarrow> nat) \<Rightarrow> nat canvas" where
  "stub_canvas size_at = \<lparr>loads = True, toBlob = (\<lambda>w h m q. Some (size_at q)), bsize = (\<lambda>n. n)\<rparr>"

text \<open>
  Images for the stand-ins, by the byte count to which they encode. One encodes to 51203
  bytes at every quality, one to 1 kilobyte at every quality. One encodes to 30 kilobytes
  at a quality of 20 percent or less and to 100 kilobytes above, on the scale of the
  backend and on the scale of the frontend. None of them tests a quality for equality, so
  that the rounding of the frontend's doubles, which the rational model leaves out, does
  not change what they return.
\<close>

definition flat_size :: "'q \<Rightarrow> nat" where
  "flat_size q = 51203"

definition tiny_size :: "'q \<Rightarrow> nat" where
  "tiny_size q = 1024"

definition low_backend :: "int \<Rightarrow> nat" where
  "low_backend q = (if q \<le> 20 then 30720 else 102400)"

definition low_frontend :: "rat \<Rightarrow> nat" where
  "low_frontend q = (if q \<le> 20 / 100 then 30720 else 102400)"

section \<open>The search as the specification words it\<close>

text \<open>
  Section 4.2 of the specification describes one search, on any quality scale. This is
  that search, written from the words of the specification and not from the code; the
  two loops are compared with it further down.
\<close>

text \<open>
  The parameters of the search: the quality it starts from, the step down and the step
  up, the range of the scale, and the budget of attempts.
\<close>

record 'q scale =
  start :: 'q
  step_down :: 'q
  step_up :: 'q
  lowest :: 'q
  highest :: 'q
  budget :: nat

text \<open>Step 3c: \<open>minKb \<le> sizeKb \<le> maxKb\<close>.\<close>

definition within_window :: "rat \<Rightarrow> nat \<Rightarrow> nat \<Rightarrow> bool" where
  "within_window kb mn mx = (of_nat mn \<le> kb \<and> kb \<le> of_nat mx)"

text \<open>
  Steps 3d, 3e and 3f: decrease the quality by a fixed step when the size is above
  \<open>maxKb\<close>, else increase it by a fixed step; then clamp it to the range of the scale.
\<close>

definition next_quality :: "('q::{linorder, plus, minus}) scale \<Rightarrow> rat \<Rightarrow> nat \<Rightarrow> 'q \<Rightarrow> 'q" where
  "next_quality sc kb mx q =
     max (lowest sc) (min (highest sc)
       (if kb > of_nat mx then q - step_down sc else q + step_up sc))"

text \<open>
  Step 3 and step 4: a loop bounded by the number of attempts left, which encodes at
  the current quality, stops when the size is within the window, and otherwise goes on
  from the adjusted quality; after the loop, the last buffer produced. The result holds
  the qualities tried, in order, and the buffer kept or the error of the encoder.
\<close>

fun fit_search ::
  "('q::{linorder, plus, minus}) scale \<Rightarrow> ('q \<Rightarrow> error + 'b) \<Rightarrow> ('b \<Rightarrow> nat) \<Rightarrow> nat \<Rightarrow> nat
     \<Rightarrow> nat \<Rightarrow> 'q \<Rightarrow> 'b option \<Rightarrow> 'q list \<times> (error + 'b option)" where
  "fit_search sc enc len mn mx 0 q kept = ([], Inr kept)"
| "fit_search sc enc len mn mx (Suc n) q kept =
     (case enc q of
        Inl e \<Rightarrow> ([q], Inl e)
      | Inr buf \<Rightarrow>
          if within_window (of_nat (len buf) / 1024) mn mx then ([q], Inr (Some buf))
          else (case fit_search sc enc len mn mx n
                       (next_quality sc (of_nat (len buf) / 1024) mx q) (Some buf) of
                  (qs, res) \<Rightarrow> (q # qs, res)))"

text \<open>Step 2: the search starts from the start quality of the scale, with no buffer.\<close>

definition fit ::
  "('q::{linorder, plus, minus}) scale \<Rightarrow> ('q \<Rightarrow> error + 'b) \<Rightarrow> ('b \<Rightarrow> nat) \<Rightarrow> nat \<Rightarrow> nat
     \<Rightarrow> 'q list \<times> (error + 'b option)" where
  "fit sc enc len mn mx = fit_search sc enc len mn mx (budget sc) (start sc) None"

text \<open>The constants of the two programs, as parameters of the search.\<close>

definition backend_scale :: "int scale" where
  "backend_scale =
     \<lparr>start = 92, step_down = 5, step_up = 3, lowest = 10, highest = 100, budget = 20\<rparr>"

definition frontend_scale :: "rat scale" where
  "frontend_scale =
     \<lparr>start = 92 / 100, step_down = 5 / 100, step_up = 2 / 100, lowest = 1 / 10, highest = 1,
      budget = 15\<rparr>"

text \<open>The canvas as an encoder: a \<open>null\<close> blob is the \<open>TypeError\<close> it leads to.\<close>

definition blob_or_error :: "'b option \<Rightarrow> error + 'b" where
  "blob_or_error b = (case b of None \<Rightarrow> Inl TypeError | Some x \<Rightarrow> Inr x)"

section \<open>Notions used in the statements and the proofs\<close>

text \<open>The rules that the parser returns when it recognises nothing.\<close>

definition default_rules :: rules where
  "default_rules = \<lparr>width = Num 200, height = Num 230, minKb = Num 20, maxKb = Num 50, format = js ''jpg''\<rparr>"

text \<open>The rules of the preset \<open>photo\<close>.\<close>

definition photo_rules :: rules where
  "photo_rules = \<lparr>width = Num 200, height = Num 230, minKb = Num 20, maxKb = Num 50, format = js ''jpg''\<rparr>"


text \<open>The first match of a pattern started in a state: the one the engine reports.\<close>

definition first_match :: "rx \<Rightarrow> mstate \<Rightarrow> mstate \<Rightarrow> bool" where
  "first_match r s s' = (\<exists>more. ms r s = s' # more)"

text \<open>
  A pattern needs a code unit with property \<open>P\<close>: started on input without one, it has
  no match.
\<close>

definition needs :: "(nat \<Rightarrow> bool) \<Rightarrow> rx \<Rightarrow> bool" where
  "needs P r = (\<forall>pre rest caps. (\<forall>c\<in>set rest. \<not> P c) \<longrightarrow> ms r (pre, rest, caps) = [])"

text \<open>The four code units with which a format name can begin.\<close>

definition is_j_or_p :: "nat \<Rightarrow> bool" where
  "is_j_or_p c = (c \<in> set (js ''jJpP''))"

text \<open>A stand-in for \<open>sharp\<close> that rejects every image.\<close>

definition broken_sharp :: "nat sharp" where
  "broken_sharp =
     \<lparr>toBuffer = (\<lambda>p w h m q. Inl LibraryError), blength = (\<lambda>n. n),
      metadata = (\<lambda>n. Inl LibraryError)\<rparr>"

text \<open>All the qualities at which a trace encodes lie between two bounds.\<close>

definition qualities_within :: "'q::linorder \<Rightarrow> 'q \<Rightarrow> 'q call list \<Rightarrow> bool" where
  "qualities_within lo hi cs = (\<forall>m q. Encode m q \<in> set cs \<longrightarrow> lo \<le> q \<and> q \<le> hi)"


section \<open>The loops, step by step\<close>


lemma encodes_append [simp]: "encodes (xs @ ys) = encodes xs + encodes ys"
  by (simp add: encodes_def)
lemma resizes_append [simp]: "resizes (xs @ ys) = resizes xs + resizes ys"
  by (simp add: resizes_def)
lemma encodes_simps [simp]: "encodes [] = 0" "encodes (Resize a b # xs) = encodes xs" "encodes (Encode m q # xs) = Suc (encodes xs)"
  by (simp_all add: encodes_def)
lemma resizes_simps [simp]: "resizes [] = 0" "resizes (Resize a b # xs) = Suc (resizes xs)" "resizes (Encode m q # xs) = resizes xs"
  by (simp_all add: resizes_def)

lemma loop_exhausted:
  "\<not> attempts st < maxAttempts \<Longrightarrow> processImage_loop env p w h mn mx f st = (st, None)"
  by (simp add: processImage_loop.simps [of env p w h mn mx f st])

lemma loop_error:
  "attempts st < maxAttempts \<Longrightarrow> toBuffer env p w h (encoder_name f) (quality st) = Inl e \<Longrightarrow>
   processImage_loop env p w h mn mx f st
     = (st\<lparr>calls := calls st @ [Resize w h, Encode (encoder_name f) (quality st)]\<rparr>, Some e)"
  by (simp add: processImage_loop.simps [of env p w h mn mx f st])

lemma loop_hit:
  "attempts st < maxAttempts \<Longrightarrow> toBuffer env p w h (encoder_name f) (quality st) = Inr out \<Longrightarrow>
   in_window (of_nat (blength env out) / 1024) mn mx \<Longrightarrow>
   processImage_loop env p w h mn mx f st
     = (st\<lparr>calls := calls st @ [Resize w h, Encode (encoder_name f) (quality st)],
           outbuf := Some out\<rparr>, None)"
  by (simp add: processImage_loop.simps [of env p w h mn mx f st])

lemma loop_miss:
  "attempts st < maxAttempts \<Longrightarrow> toBuffer env p w h (encoder_name f) (quality st) = Inr out \<Longrightarrow>
   \<not> in_window (of_nat (blength env out) / 1024) mn mx \<Longrightarrow>
   processImage_loop env p w h mn mx f st
     = processImage_loop env p w h mn mx f
         (st\<lparr>calls := calls st @ [Resize w h, Encode (encoder_name f) (quality st)],
             outbuf := Some out,
             quality := adjust_quality (of_nat (blength env out) / 1024) mn mx (quality st),
             attempts := attempts st + 1\<rparr>)"
  by (simp add: processImage_loop.simps [of env p w h mn mx f st])

lemma loop_cases [case_names exhausted error hit miss]:
  assumes "\<And>st. \<not> attempts st < maxAttempts \<Longrightarrow> P st"
    and "\<And>st e. attempts st < maxAttempts \<Longrightarrow>
           toBuffer env p w h (encoder_name f) (quality st) = Inl e \<Longrightarrow> P st"
    and "\<And>st out. attempts st < maxAttempts \<Longrightarrow>
           toBuffer env p w h (encoder_name f) (quality st) = Inr out \<Longrightarrow>
           in_window (of_nat (blength env out) / 1024) mn mx \<Longrightarrow> P st"
    and "\<And>st out. attempts st < maxAttempts \<Longrightarrow>
           toBuffer env p w h (encoder_name f) (quality st) = Inr out \<Longrightarrow>
           \<not> in_window (of_nat (blength env out) / 1024) mn mx \<Longrightarrow>
           P (st\<lparr>calls := calls st @ [Resize w h, Encode (encoder_name f) (quality st)],
                 outbuf := Some out,
                 quality := adjust_quality (of_nat (blength env out) / 1024) mn mx (quality st),
                 attempts := attempts st + 1\<rparr>) \<Longrightarrow> P st"
  shows "P (st :: (int, 'b) search_state)"
proof (induction st rule: measure_induct_rule [where f = "\<lambda>st. maxAttempts - attempts st"])
  case (less st)
  show ?case
  proof (cases "attempts st < maxAttempts")
    case False
    then show ?thesis by (rule assms(1))
  next
    case lt: True
    show ?thesis
    proof (cases "toBuffer env p w h (encoder_name f) (quality st)")
      case (Inl e)
      with lt show ?thesis by (rule assms(2))
    next
      case (Inr out)
      show ?thesis
      proof (cases "in_window (of_nat (blength env out) / 1024) mn mx")
        case True
        with lt Inr show ?thesis by (rule assms(3))
      next
        case False
        show ?thesis
        proof (rule assms(4) [OF lt Inr False])
          show "P (st\<lparr>calls := calls st @ [Resize w h, Encode (encoder_name f) (quality st)],
                 outbuf := Some out,
                 quality := adjust_quality (of_nat (blength env out) / 1024) mn mx (quality st),
                 attempts := attempts st + 1\<rparr>)"
            using lt by (intro less) simp
        qed
      qed
    qed
  qed
qed

lemma processImage_loop_encodes:
  "processImage_loop env p w h mn mx f st = (st', e) \<Longrightarrow>
   encodes (calls st') \<le> encodes (calls st) + (maxAttempts - attempts st)"
proof (induction st rule: loop_cases [of _ env p w h f mn mx])
  case (exhausted st)
  then show ?case by (simp add: loop_exhausted)
next
  case (error st e)
  then show ?case by (auto simp: loop_error)
next
  case (hit st out)
  then show ?case by (auto simp: loop_hit)
next
  case (miss st out)
  then show ?case by (auto simp: loop_miss)
qed


lemma processImage_loop_last:
  "processImage_loop env p w h mn mx f st = (st', e) \<Longrightarrow>
   attempts st < maxAttempts
     \<or> (\<exists>q out. calls st \<noteq> [] \<and> last (calls st) = Encode (encoder_name f) q
            \<and> toBuffer env p w h (encoder_name f) q = Inr out \<and> outbuf st = Some out) \<Longrightarrow>
   \<exists>q. calls st' \<noteq> [] \<and> last (calls st') = Encode (encoder_name f) q \<and>
       ((\<exists>out. e = None \<and> toBuffer env p w h (encoder_name f) q = Inr out \<and> outbuf st' = Some out)
        \<or> (\<exists>err. e = Some err \<and> toBuffer env p w h (encoder_name f) q = Inl err))"
proof (induction st rule: loop_cases [of _ env p w h f mn mx])
  case (exhausted st)
  then show ?case by (auto simp: loop_exhausted)
next
  case (error st e)
  then show ?case by (auto simp: loop_error)
next
  case (hit st out)
  then show ?case by (auto simp: loop_hit)
next
  case (miss st out)
  from miss.prems(1) miss.hyps have
    "processImage_loop env p w h mn mx f
       (st\<lparr>calls := calls st @ [Resize w h, Encode (encoder_name f) (quality st)],
           outbuf := Some out,
           quality := adjust_quality (of_nat (blength env out) / 1024) mn mx (quality st),
           attempts := attempts st + 1\<rparr>) = (st', e)"
    by (simp add: loop_miss)
  then show ?case
    by (rule miss.IH) (simp add: miss.hyps)
qed

lemma adjust_quality_range: "10 \<le> adjust_quality s mn mx q \<and> adjust_quality s mn mx q \<le> 100"
  by (simp add: adjust_quality_def Let_def)

lemma processImage_loop_quality:
  "processImage_loop env p w h mn mx f st = (st', e) \<Longrightarrow>
   10 \<le> quality st \<and> quality st \<le> 100 \<Longrightarrow> qualities_within 10 100 (calls st) \<Longrightarrow>
   qualities_within 10 100 (calls st') \<and> 10 \<le> quality st' \<and> quality st' \<le> 100"
proof (induction st rule: loop_cases [of _ env p w h f mn mx])
  case (exhausted st)
  then show ?case by (auto simp: loop_exhausted)
next
  case (error st e)
  then show ?case by (auto simp: loop_error qualities_within_def)
next
  case (hit st out)
  then show ?case by (auto simp: loop_hit qualities_within_def)
next
  case (miss st out)
  from miss.prems(1) miss.hyps have
    "processImage_loop env p w h mn mx f
       (st\<lparr>calls := calls st @ [Resize w h, Encode (encoder_name f) (quality st)],
           outbuf := Some out,
           quality := adjust_quality (of_nat (blength env out) / 1024) mn mx (quality st),
           attempts := attempts st + 1\<rparr>) = (st', e)"
    by (simp add: loop_miss)
  then show ?case
    by (rule miss.IH) (use miss.prems(2,3) in \<open>auto simp: adjust_quality_range qualities_within_def\<close>)
qed





lemma client_exhausted:
  "\<not> attempts st < 15 \<Longrightarrow> client_loop env r st = (st, None)"
  by (simp add: client_loop.simps [of env r st])

lemma client_error:
  "attempts st < 15 \<Longrightarrow> toBlob env (field width r) (field height r) (mime_type r) (quality st) = None \<Longrightarrow>
   client_loop env r st
     = (st\<lparr>calls := calls st @ [Encode (mime_type r) (quality st)], outbuf := None\<rparr>,
        Some TypeError)"
  by (simp add: client_loop.simps [of env r st])

lemma client_hit:
  "attempts st < 15 \<Longrightarrow>
   toBlob env (field width r) (field height r) (mime_type r) (quality st) = Some blob \<Longrightarrow>
   in_window (of_nat (bsize env blob) / 1024) (field minKb r) (field maxKb r) \<Longrightarrow>
   client_loop env r st
     = (st\<lparr>calls := calls st @ [Encode (mime_type r) (quality st)], outbuf := Some blob\<rparr>,
        None)"
  by (simp add: client_loop.simps [of env r st])

lemma client_miss:
  "attempts st < 15 \<Longrightarrow>
   toBlob env (field width r) (field height r) (mime_type r) (quality st) = Some blob \<Longrightarrow>
   \<not> in_window (of_nat (bsize env blob) / 1024) (field minKb r) (field maxKb r) \<Longrightarrow>
   client_loop env r st
     = client_loop env r
         (st\<lparr>calls := calls st @ [Encode (mime_type r) (quality st)],
             outbuf := Some blob,
             quality := adjust_quality_client (of_nat (bsize env blob) / 1024) (field minKb r) (field maxKb r)
                          (quality st),
             attempts := attempts st + 1\<rparr>)"
  by (simp add: client_loop.simps [of env r st])

lemma client_cases [case_names exhausted error hit miss]:
  assumes "\<And>st. \<not> attempts st < 15 \<Longrightarrow> P st"
    and "\<And>st. attempts st < 15 \<Longrightarrow>
           toBlob env (field width r) (field height r) (mime_type r) (quality st) = None \<Longrightarrow> P st"
    and "\<And>st blob. attempts st < 15 \<Longrightarrow>
           toBlob env (field width r) (field height r) (mime_type r) (quality st) = Some blob \<Longrightarrow>
           in_window (of_nat (bsize env blob) / 1024) (field minKb r) (field maxKb r) \<Longrightarrow> P st"
    and "\<And>st blob. attempts st < 15 \<Longrightarrow>
           toBlob env (field width r) (field height r) (mime_type r) (quality st) = Some blob \<Longrightarrow>
           \<not> in_window (of_nat (bsize env blob) / 1024) (field minKb r) (field maxKb r) \<Longrightarrow>
           P (st\<lparr>calls := calls st @ [Encode (mime_type r) (quality st)],
                 outbuf := Some blob,
                 quality := adjust_quality_client (of_nat (bsize env blob) / 1024) (field minKb r)
                              (field maxKb r) (quality st),
                 attempts := attempts st + 1\<rparr>) \<Longrightarrow> P st"
  shows "P (st :: (rat, 'b) search_state)"
proof (induction st rule: measure_induct_rule [where f = "\<lambda>st. 15 - attempts st"])
  case (less st)
  show ?case
  proof (cases "attempts st < 15")
    case False
    then show ?thesis by (rule assms(1))
  next
    case lt: True
    show ?thesis
    proof (cases "toBlob env (field width r) (field height r) (mime_type r) (quality st)")
      case None
      with lt show ?thesis by (rule assms(2))
    next
      case (Some blob)
      show ?thesis
      proof (cases "in_window (of_nat (bsize env blob) / 1024) (field minKb r) (field maxKb r)")
        case True
        with lt Some show ?thesis by (rule assms(3))
      next
        case False
        show ?thesis
        proof (rule assms(4) [OF lt Some False])
          show "P (st\<lparr>calls := calls st @ [Encode (mime_type r) (quality st)],
                 outbuf := Some blob,
                 quality := adjust_quality_client (of_nat (bsize env blob) / 1024) (field minKb r)
                              (field maxKb r) (quality st),
                 attempts := attempts st + 1\<rparr>)"
            using lt by (intro less) simp
        qed
      qed
    qed
  qed
qed

lemma client_loop_encodes:
  "client_loop env r st = (st', e) \<Longrightarrow>
   encodes (calls st') \<le> encodes (calls st) + (15 - attempts st)"
proof (induction st rule: client_cases [of _ env r])
  case (exhausted st)
  then show ?case by (simp add: client_exhausted)
next
  case (error st)
  then show ?case by (auto simp: client_error)
next
  case (hit st blob)
  then show ?case by (auto simp: client_hit)
next
  case (miss st blob)
  then show ?case by (auto simp: client_miss)
qed


lemma client_loop_last:
  "client_loop env r st = (st', e) \<Longrightarrow>
   attempts st < 15
     \<or> (\<exists>q blob. calls st \<noteq> [] \<and> last (calls st) = Encode (mime_type r) q
            \<and> toBlob env (field width r) (field height r) (mime_type r) q = Some blob
            \<and> outbuf st = Some blob) \<Longrightarrow>
   \<exists>q. calls st' \<noteq> [] \<and> last (calls st') = Encode (mime_type r) q \<and>
       ((\<exists>blob. e = None \<and> toBlob env (field width r) (field height r) (mime_type r) q = Some blob
                \<and> outbuf st' = Some blob)
        \<or> (e = Some TypeError \<and> toBlob env (field width r) (field height r) (mime_type r) q = None))"
proof (induction st rule: client_cases [of _ env r])
  case (exhausted st)
  then show ?case by (auto simp: client_exhausted)
next
  case (error st)
  then show ?case by (auto simp: client_error)
next
  case (hit st blob)
  then show ?case by (auto simp: client_hit)
next
  case (miss st blob)
  from miss.prems(1) miss.hyps have
    "client_loop env r
         (st\<lparr>calls := calls st @ [Encode (mime_type r) (quality st)],
             outbuf := Some blob,
             quality := adjust_quality_client (of_nat (bsize env blob) / 1024) (field minKb r) (field maxKb r)
                          (quality st),
             attempts := attempts st + 1\<rparr>) = (st', e)"
    by (simp add: client_miss)
  then show ?case
    by (rule miss.IH) (simp add: miss.hyps)
qed

lemma adjust_quality_client_range:
  "1 / 10 \<le> adjust_quality_client s mn mx q \<and> adjust_quality_client s mn mx q \<le> 1"
  by (simp add: adjust_quality_client_def Let_def)

lemma client_loop_quality:
  "client_loop env r st = (st', e) \<Longrightarrow>
   1 / 10 \<le> quality st \<and> quality st \<le> 1 \<Longrightarrow> qualities_within (1 / 10) 1 (calls st) \<Longrightarrow>
   qualities_within (1 / 10) 1 (calls st') \<and> 1 / 10 \<le> quality st' \<and> quality st' \<le> 1"
proof (induction st rule: client_cases [of _ env r])
  case (exhausted st)
  then show ?case by (auto simp: client_exhausted)
next
  case (error st)
  then show ?case by (auto simp: client_error qualities_within_def)
next
  case (hit st blob)
  then show ?case by (auto simp: client_hit qualities_within_def)
next
  case (miss st blob)
  from miss.prems(1) miss.hyps have
    "client_loop env r
         (st\<lparr>calls := calls st @ [Encode (mime_type r) (quality st)],
             outbuf := Some blob,
             quality := adjust_quality_client (of_nat (bsize env blob) / 1024) (field minKb r) (field maxKb r)
                          (quality st),
             attempts := attempts st + 1\<rparr>) = (st', e)"
    by (simp add: client_miss)
  then show ?case
    by (rule miss.IH)
       (use miss.prems(2,3) adjust_quality_client_range in \<open>auto simp: qualities_within_def\<close>)
qed




lemma encodes_last: "cs \<noteq> [] \<Longrightarrow> last cs = Encode m q \<Longrightarrow> 1 \<le> encodes cs"
proof -
  assume a: "cs \<noteq> []" "last cs = Encode m q"
  then have "cs = butlast cs @ [Encode m q]" by (metis append_butlast_last_id)
  then have "encodes cs = encodes (butlast cs) + 1" by (metis encodes_append encodes_simps(1,3) One_nat_def)
  then show ?thesis by simp
qed

lemmas run_defs = processImage_def processImage_loop.simps client_loop.simps maxAttempts_def
  in_window_def adjust_quality_def adjust_quality_client_def encoder_name_def
  js_def stub_sharp_def stub_canvas_def flat_size_def tiny_size_def low_backend_def
  low_frontend_def format_or_default_def mime_type_def

lemma processImage_quality: "qualities_within 10 100 (fst (processImage env p w h mn mx f))"
proof -
  obtain st e where run:
    "processImage_loop env p w h mn mx (format_or_default f)
       \<lparr>quality = 92, outbuf = None, attempts = 0, calls = []\<rparr> = (st, e)"
    by (cases "processImage_loop env p w h mn mx (format_or_default f)
                 \<lparr>quality = 92, outbuf = None, attempts = 0, calls = []\<rparr>")
  from processImage_loop_quality [OF run] have "qualities_within 10 100 (calls st)"
    by (simp add: qualities_within_def)
  with run show ?thesis by (cases e) (simp_all add: processImage_def)
qed

lemma processClientSide_quality:
  "qualities_within (1 / 10) 1 (fst (processClientSide cenv up sp cr))"
proof (cases "\<not> up \<or> \<not> loads cenv \<or> getCurrentRules sp cr = Undefined")
  case True
  then show ?thesis by (auto simp: processClientSide_def qualities_within_def)
next
  case False
  let ?r = "getCurrentRules sp cr"
  from False have r: "up" "loads cenv" "?r \<noteq> Undefined" by auto
  obtain st e where run:
    "client_loop cenv ?r \<lparr>quality = 92 / 100, outbuf = None, attempts = 0,
                         calls = [Resize (field width ?r) (field height ?r)]\<rparr> = (st, e)"
    by (cases "client_loop cenv ?r \<lparr>quality = 92 / 100, outbuf = None, attempts = 0,
                         calls = [Resize (field width ?r) (field height ?r)]\<rparr>")
  from client_loop_quality [OF run] have "qualities_within (1 / 10) 1 (calls st)"
    by (simp add: qualities_within_def)
  with run r show ?thesis
    by (cases ?r) (auto simp: processClientSide_def Let_def split: option.splits)
qed


section \<open>Runs on the stand-ins\<close>

text \<open>
  Runs used further down, all against the window of the preset \<open>photo\<close>, from 20 to 50
  kilobytes, unless said otherwise. An image that encodes to 51203 bytes at every
  quality, which is 50.0029 kilobytes: the loop makes all its attempts, and the quality
  of the backend falls to 10 and stays there. An image of 1 kilobyte at every quality:
  the quality of the frontend rises to 1 and stays there. An image that fits at 20 percent
  quality or less: the backend reaches it at 17, the frontend ends at 0.22.
\<close>

lemma floor_rat_numeral_divide [simp]:
  "\<lfloor>(numeral a :: rat) / numeral b\<rfloor> = numeral a div numeral b"
  using floor_divide_of_int_eq [of "numeral a" "numeral b", where ?'a = rat] by simp

lemmas handler_defs = process_handler_def process_try_def request_rules_def truthy_def
  presets_def lookup_def object_prototype_keys_def

lemmas frontend_defs = processClientSide_def getCurrentRules_def PRESETS_def lookup_def
  object_prototype_keys_def toFixed2_def toUpperCase_def

lemma run_backend_flat:
  "processImage (stub_sharp flat_size) ''upload'' (Some (Num 200)) (Some (Num 230))
       (Some (Num 20)) (Some (Num 50)) (Some (js ''jpg''))
     = (concat (map (\<lambda>q. [Resize (Some (Num 200)) (Some (Num 230)), Encode (js ''jpeg'') q])
                  [92, 87, 82, 77, 72, 67, 62, 57, 52, 47, 42, 37, 32, 27, 22, 17, 12, 10, 10, 10]),
        Inr (Some (200, 230, 51203)))"
  by (simp add: run_defs)

lemma run_backend_flat_signature:
  "processImage (stub_sharp flat_size) ''upload'' (Some (Num 140)) (Some (Num 60))
       (Some (Num 10)) (Some (Num 20)) (Some (js ''jpg''))
     = (concat (map (\<lambda>q. [Resize (Some (Num 140)) (Some (Num 60)), Encode (js ''jpeg'') q])
                  [92, 87, 82, 77, 72, 67, 62, 57, 52, 47, 42, 37, 32, 27, 22, 17, 12, 10, 10, 10]),
        Inr (Some (140, 60, 51203)))"
  by (simp add: run_defs)

lemma run_backend_low:
  "processImage (stub_sharp low_backend) ''upload'' (Some (Num 200)) (Some (Num 230))
       (Some (Num 20)) (Some (Num 50)) (Some (js ''jpg''))
     = (concat (map (\<lambda>q. [Resize (Some (Num 200)) (Some (Num 230)), Encode (js ''jpeg'') q])
                  [92, 87, 82, 77, 72, 67, 62, 57, 52, 47, 42, 37, 32, 27, 22, 17]),
        Inr (Some (200, 230, 30720)))"
  by (simp add: run_defs)

lemma run_backend_inherited:
  "processImage (stub_sharp flat_size) ''upload'' None None None None None
     = (concat (map (\<lambda>q. [Resize None None, Encode (js ''jpeg'') q])
                  [92, 92, 92, 92, 92, 92, 92, 92, 92, 92, 92, 92, 92, 92, 92, 92, 92, 92, 92, 92]),
        Inr (Some (1000, 1000, 51203)))"
  by (simp add: run_defs)

lemma handler_backend_flat:
  "process_handler (stub_sharp flat_size)
     \<lparr>file_path = Some ''upload'', preset = Some (js ''photo''), ruleText = None\<rparr>
     {''upload'', ''other''}
   = (concat (map (\<lambda>q. [Resize (Some (Num 200)) (Some (Num 230)), Encode (js ''jpeg'') q])
                  [92, 87, 82, 77, 72, 67, 62, 57, 52, 47, 42, 37, 32, 27, 22, 17, 12, 10, 10, 10]),
      Json \<lparr>res_width = Num 200, res_height = Num 230, sizeKb = 50, res_format = js ''JPG'',
            valid = True, image = (200, 230, 51203)\<rparr>,
      {''other''})"
  unfolding process_handler_def process_try_def
  by (simp add: run_backend_flat request_rules_def truthy_def presets_def lookup_def)
     (simp add: js_def stub_sharp_def toFixed2_def toUpperCase_def unlink_def in_window_def)

lemma handler_backend_flat_signature:
  "process_handler (stub_sharp flat_size)
     \<lparr>file_path = Some ''upload'', preset = Some (js ''signature''), ruleText = None\<rparr>
     {''upload'', ''other''}
   = (concat (map (\<lambda>q. [Resize (Some (Num 140)) (Some (Num 60)), Encode (js ''jpeg'') q])
                  [92, 87, 82, 77, 72, 67, 62, 57, 52, 47, 42, 37, 32, 27, 22, 17, 12, 10, 10, 10]),
      Json \<lparr>res_width = Num 140, res_height = Num 60, sizeKb = 50, res_format = js ''JPG'',
            valid = False, image = (140, 60, 51203)\<rparr>,
      {''other''})"
  unfolding process_handler_def process_try_def
  by (simp add: run_backend_flat_signature request_rules_def truthy_def presets_def lookup_def)
     (simp add: js_def stub_sharp_def toFixed2_def toUpperCase_def unlink_def in_window_def)

lemma handler_backend_low:
  "process_handler (stub_sharp low_backend)
     \<lparr>file_path = Some ''upload'', preset = Some (js ''photo''), ruleText = None\<rparr>
     {''upload'', ''other''}
   = (concat (map (\<lambda>q. [Resize (Some (Num 200)) (Some (Num 230)), Encode (js ''jpeg'') q])
                  [92, 87, 82, 77, 72, 67, 62, 57, 52, 47, 42, 37, 32, 27, 22, 17]),
      Json \<lparr>res_width = Num 200, res_height = Num 230, sizeKb = 30, res_format = js ''JPG'',
            valid = True, image = (200, 230, 30720)\<rparr>,
      {''other''})"
  unfolding process_handler_def process_try_def
  by (simp add: run_backend_low request_rules_def truthy_def presets_def lookup_def)
     (simp add: js_def stub_sharp_def toFixed2_def toUpperCase_def unlink_def in_window_def)

lemma handler_inherited:
  "process_handler (stub_sharp flat_size)
     \<lparr>file_path = Some ''upload'', preset = Some (js ''constructor''), ruleText = None\<rparr>
     {''upload'', ''other''}
   = (concat (map (\<lambda>q. [Resize None None, Encode (js ''jpeg'') q])
                  [92, 92, 92, 92, 92, 92, 92, 92, 92, 92, 92, 92, 92, 92, 92, 92, 92, 92, 92, 92]),
      Status500 TypeError, {''other''})"
  unfolding process_handler_def process_try_def
  by (simp add: request_rules_def truthy_def presets_def lookup_def object_prototype_keys_def
        js_def)
     (simp add: run_backend_inherited, simp add: stub_sharp_def unlink_def js_def)

lemma handler_undefined:
  "process_handler (stub_sharp flat_size)
     \<lparr>file_path = Some ''upload'', preset = Some (js ''passport''), ruleText = None\<rparr>
     {''upload'', ''other''}
   = ([], Status500 TypeError, {''other''})"
  by (simp add: handler_defs js_def)

lemma handler_broken:
  "process_handler broken_sharp
     \<lparr>file_path = Some ''upload'', preset = Some (js ''photo''), ruleText = None\<rparr>
     {''upload'', ''other''}
   = ([Resize (Some (Num 200)) (Some (Num 230)), Encode (js ''jpeg'') 92],
      Status500 LibraryError, {''other''})"
  unfolding process_handler_def process_try_def
  by (simp add: request_rules_def truthy_def presets_def lookup_def)
     (simp add: js_def broken_sharp_def processImage_def processImage_loop.simps maxAttempts_def
        encoder_name_def format_or_default_def)

lemma run_frontend_flat:
  "processClientSide (stub_canvas flat_size) True (js ''photo'') []
     = (Resize (Some (Num 200)) (Some (Num 230))
        # map (Encode (js ''image/jpeg''))
            [92 / 100, 87 / 100, 82 / 100, 77 / 100, 72 / 100, 67 / 100, 62 / 100, 57 / 100,
             52 / 100, 47 / 100, 42 / 100, 37 / 100, 32 / 100, 27 / 100, 22 / 100],
        ResultSet \<lparr>res_width = Num 200, res_height = Num 230, sizeKb = 50,
                   res_format = js ''JPG'', valid = False, image = 51203\<rparr>)"
  by (simp add: run_defs frontend_defs)

lemma run_frontend_tiny:
  "processClientSide (stub_canvas tiny_size) True (js ''photo'') []
     = (Resize (Some (Num 200)) (Some (Num 230))
        # map (Encode (js ''image/jpeg''))
            [92 / 100, 94 / 100, 96 / 100, 98 / 100, 1, 1, 1, 1, 1, 1, 1, 1, 1, 1, 1],
        ResultSet \<lparr>res_width = Num 200, res_height = Num 230, sizeKb = 1,
                   res_format = js ''JPG'', valid = False, image = 1024\<rparr>)"
  by (simp add: run_defs frontend_defs)

lemma run_frontend_low:
  "processClientSide (stub_canvas low_frontend) True (js ''photo'') []
     = (Resize (Some (Num 200)) (Some (Num 230))
        # map (Encode (js ''image/jpeg''))
            [92 / 100, 87 / 100, 82 / 100, 77 / 100, 72 / 100, 67 / 100, 62 / 100, 57 / 100,
             52 / 100, 47 / 100, 42 / 100, 37 / 100, 32 / 100, 27 / 100, 22 / 100],
        ResultSet \<lparr>res_width = Num 200, res_height = Num 230, sizeKb = 100,
                   res_format = js ''JPG'', valid = False, image = 102400\<rparr>)"
  by (simp add: run_defs frontend_defs)


section \<open>The two loops and the search of the specification\<close>

lemma miss_below:
  "\<not> in_window s (Some mn) (Some mx) \<Longrightarrow> \<not> js_gt s (Some mx) \<Longrightarrow> js_lt s (Some mn)"
  by (cases mn; cases mx) (auto simp: in_window_def)





lemma within_window_eq: "within_window s mn mx = in_window s (Some (Num mn)) (Some (Num mx))"
  by (auto simp: within_window_def in_window_def)

lemma adjust_quality_miss:
  "\<not> in_window s (Some (Num mn)) (Some (Num mx)) \<Longrightarrow>
   adjust_quality s (Some (Num mn)) (Some (Num mx)) q = next_quality backend_scale s mx q"
  using miss_below [of s "Num mn" "Num mx"]
  by (simp add: adjust_quality_def next_quality_def backend_scale_def)

lemma adjust_quality_client_eq:
  "adjust_quality_client s mn (Some (Num mx)) q = next_quality frontend_scale s mx q"
  by (simp add: adjust_quality_client_def next_quality_def frontend_scale_def)

lemma processImage_loop_fit:
  "processImage_loop env p w h (Some (Num mn)) (Some (Num mx)) f st = (st', e) \<Longrightarrow>
   fit_search backend_scale (toBuffer env p w h (encoder_name f)) (blength env) mn mx
       (maxAttempts - attempts st) (quality st) (outbuf st) = (qs, res) \<Longrightarrow>
   calls st' = calls st @ concat (map (\<lambda>q. [Resize w h, Encode (encoder_name f) q]) qs)
   \<and> res = (case e of None \<Rightarrow> Inr (outbuf st') | Some err \<Rightarrow> Inl err)"
proof (induction st arbitrary: qs res
    rule: loop_cases [of _ env p w h f "Some (Num mn)" "Some (Num mx)"])
  case (exhausted st)
  then show ?case by (auto simp: loop_exhausted)
next
  case (error st err)
  from error.hyps(1) obtain n where n: "maxAttempts - attempts st = Suc n"
    by (cases "maxAttempts - attempts st") auto
  from error.prems error.hyps show ?case
    unfolding n by (auto simp: loop_error)
next
  case (hit st out)
  from hit.hyps(1) obtain n where n: "maxAttempts - attempts st = Suc n"
    by (cases "maxAttempts - attempts st") auto
  from hit.prems hit.hyps show ?case
    unfolding n by (auto simp: loop_hit within_window_eq)
next
  case (miss st out)
  let ?st2 = "st\<lparr>calls := calls st @ [Resize w h, Encode (encoder_name f) (quality st)],
           outbuf := Some out,
           quality := adjust_quality (of_nat (blength env out) / 1024) (Some (Num mn))
                        (Some (Num mx)) (quality st),
           attempts := attempts st + 1\<rparr>"
  from miss.hyps(1) have n: "maxAttempts - attempts st = Suc (maxAttempts - attempts ?st2)"
    by simp
  from miss.prems(1) miss.hyps
  have run: "processImage_loop env p w h (Some (Num mn)) (Some (Num mx)) f ?st2 = (st', e)"
    by (simp add: loop_miss)
  obtain qs' res' where rec:
    "fit_search backend_scale (toBuffer env p w h (encoder_name f)) (blength env) mn mx
       (maxAttempts - attempts ?st2) (quality ?st2) (outbuf ?st2) = (qs', res')"
    by (cases "fit_search backend_scale (toBuffer env p w h (encoder_name f)) (blength env) mn mx
       (maxAttempts - attempts ?st2) (quality ?st2) (outbuf ?st2)")
  from miss.prems(2) have "(quality st # qs', res') = (qs, res)"
    unfolding n
    using miss.hyps(2,3) rec
    by (simp add: within_window_eq adjust_quality_miss)
  then have qs: "qs = quality st # qs'" "res = res'" by simp_all
  from miss.IH [OF run rec] show ?case
    by (simp add: qs)
qed

lemma client_loop_fit:
  assumes mn: "field minKb r = Some (Num mn)" and mx: "field maxKb r = Some (Num mx)"
  shows "client_loop env r st = (st', e) \<Longrightarrow>
   fit_search frontend_scale
       (\<lambda>q. blob_or_error (toBlob env (field width r) (field height r) (mime_type r) q))
       (bsize env) mn mx (15 - attempts st) (quality st) (outbuf st) = (qs, res) \<Longrightarrow>
   calls st' = calls st @ map (Encode (mime_type r)) qs
   \<and> res = (case e of None \<Rightarrow> Inr (outbuf st') | Some err \<Rightarrow> Inl err)"
proof (induction st arbitrary: qs res rule: client_cases [of _ env r])
  case (exhausted st)
  then show ?case by (auto simp: client_exhausted)
next
  case (error st)
  from error.hyps(1) obtain n where n: "15 - attempts st = Suc n"
    by (cases "15 - attempts st") auto
  from error.prems error.hyps show ?case
    unfolding n by (auto simp: client_error blob_or_error_def)
next
  case (hit st blob)
  from hit.hyps(1) obtain n where n: "15 - attempts st = Suc n"
    by (cases "15 - attempts st") auto
  from hit.prems hit.hyps show ?case
    unfolding n by (auto simp: client_hit within_window_eq blob_or_error_def mn mx)
next
  case (miss st blob)
  let ?st2 = "st\<lparr>calls := calls st @ [Encode (mime_type r) (quality st)],
             outbuf := Some blob,
             quality := adjust_quality_client (of_nat (bsize env blob) / 1024) (field minKb r)
                          (field maxKb r) (quality st),
             attempts := attempts st + 1\<rparr>"
  from miss.hyps(1) have n: "15 - attempts st = Suc (15 - attempts ?st2)"
    by simp
  from miss.prems(1) miss.hyps have run: "client_loop env r ?st2 = (st', e)"
    by (simp add: client_miss)
  obtain qs' res' where rec:
    "fit_search frontend_scale
       (\<lambda>q. blob_or_error (toBlob env (field width r) (field height r) (mime_type r) q))
       (bsize env) mn mx (15 - attempts ?st2) (quality ?st2) (outbuf ?st2) = (qs', res')"
    by (cases "fit_search frontend_scale
       (\<lambda>q. blob_or_error (toBlob env (field width r) (field height r) (mime_type r) q))
       (bsize env) mn mx (15 - attempts ?st2) (quality ?st2) (outbuf ?st2)")
  from miss.prems(2) have "(quality st # qs', res') = (qs, res)"
    unfolding n
    using miss.hyps(2,3) rec
    by (simp add: within_window_eq adjust_quality_client_eq blob_or_error_def mn mx)
  then have qs: "qs = quality st # qs'" "res = res'" by simp_all
  from miss.IH [OF run rec] show ?case
    by (simp add: qs)
qed

lemma low_same_image: "low_frontend (of_int q / 100) = low_backend q"
  by (simp add: low_frontend_def low_backend_def)

section \<open>The rule parser\<close>

lemmas rx_defs = rx_dims_def rx_width_height_def rx_range_def rx_size_def rx_format_def
  frontend_dashes_def backend_dashes_def

lemmas parse_defs = js_def is_digit_def is_space_def is_line_terminator_def is_word_char_def
  ci_eq_def at_word_boundary_def match_def grp_def or_else_def parseInt_def decimal_def
  toLowerCase_def
  widthMatch_def sizeMatch_def formatMatch_def parse_rules_def parseRuleText_def
  parseCustomRule_def


lemma first_Cat:
  "first_match a s s1 \<Longrightarrow> first_match b s1 s2 \<Longrightarrow> first_match (Cat a b) s s2"
  by (auto simp: first_match_def)

lemma first_Grp:
  "first_match a (pre, rest, caps) (pre', rest', caps') \<Longrightarrow>
   first_match (Grp n a) (pre, rest, caps)
     (pre', rest', (n, take (length pre' - length pre) rest) # caps')"
  by (auto simp: first_match_def)

lemma first_Atom:
  "cls_mem k c \<Longrightarrow> first_match (Atom k) (pre, c # cs, caps) (c # pre, cs, caps)"
  by (simp add: first_match_def)

lemma run_states_nonempty: "run_states k pre rest caps \<noteq> []"
  by (cases rest) simp_all

lemma run_states_last:
  "\<forall>d\<in>set ds. cls_mem k d \<Longrightarrow> rest = [] \<or> \<not> cls_mem k (hd rest) \<Longrightarrow>
   last (run_states k pre (ds @ rest) caps) = (rev ds @ pre, rest, caps)"
proof (induction ds arbitrary: pre)
  case Nil
  then show ?case by (cases rest) auto
next
  case (Cons d ds)
  then show ?case by (simp add: run_states_nonempty)
qed

lemma first_Star:
  assumes "\<forall>d\<in>set ds. cls_mem k d" and "rest = [] \<or> \<not> cls_mem k (hd rest)"
  shows "first_match (Star k) (pre, ds @ rest, caps) (rev ds @ pre, rest, caps)"
proof -
  let ?xs = "run_states k pre (ds @ rest) caps"
  have "?xs = butlast ?xs @ [last ?xs]"
    by (simp add: run_states_nonempty)
  then have "rev ?xs = rev (butlast ?xs @ [last ?xs])"
    by (rule arg_cong)
  then have "rev ?xs = last ?xs # rev (butlast ?xs)"
    by (simp only: rev_append rev.simps append.simps)
  with run_states_last [OF assms, of pre caps]
  have "ms (Star k) (pre, ds @ rest, caps) = (rev ds @ pre, rest, caps) # rev (butlast ?xs)"
    by simp
  then show ?thesis
    unfolding first_match_def by (rule exI)
qed

lemma first_Star_stay:
  "rest = [] \<or> \<not> cls_mem k (hd rest) \<Longrightarrow> first_match (Star k) (pre, rest, caps) (pre, rest, caps)"
  using first_Star [of "[]" k rest pre caps] by simp

lemma first_Plus:
  assumes "ds \<noteq> []" and "\<forall>d\<in>set ds. cls_mem k d" and "rest = [] \<or> \<not> cls_mem k (hd rest)"
  shows "first_match (Plus k) (pre, ds @ rest, caps) (rev ds @ pre, rest, caps)"
proof -
  from assms(1) obtain d ds' where ds: "ds = d # ds'" by (cases ds) auto
  with assms(2) have "\<forall>x\<in>set ds'. cls_mem k x" and d: "cls_mem k d" by auto
  from first_Star [OF this(1) assms(3), of "d # pre" caps] d show ?thesis
    by (simp add: ds first_match_def)
qed

lemma first_Str:
  "list_all2 ci_eq ps cs \<Longrightarrow>
   first_match (Str ps) (pre, cs @ rest, caps) (rev cs @ pre, rest, caps)"
proof (induction ps arbitrary: cs pre)
  case Nil
  then show ?case by (simp add: first_match_def)
next
  case (Cons p ps)
  then obtain c cs' where cs: "cs = c # cs'" "ci_eq p c" "list_all2 ci_eq ps cs'"
    by (auto simp: list_all2_Cons1)
  from Cons.IH [OF cs(3), of "c # pre"] cs(2) show ?case
    by (simp add: cs(1) first_match_def)
qed

lemma first_match_search:
  "first_match r ([], text, []) (pre', rest', caps') \<Longrightarrow> match text r = Some caps'"
  by (cases "text") (auto simp: first_match_def match_def)

lemma digit_not_space: "is_digit c \<Longrightarrow> \<not> is_space c"
  by (auto simp: is_digit_def is_space_def)

lemma range_match:
  assumes a: "a \<noteq> []" "\<forall>c\<in>set a. is_digit c"
    and b: "b \<noteq> []" "\<forall>c\<in>set b. is_digit c"
    and d: "45 \<in> set dashes"
  shows "match (a @ js ''-'' @ b @ js ''kb'') (rx_range dashes) = Some [(2, b), (1, a)]"
proof -
  let ?kb = "[107, 98] :: nat list"
  have hb: "is_digit (hd b)" using b by (cases b) auto
  have 1: "first_match (Grp 1 (Plus Digit)) ([], a @ 45 # b @ ?kb, [])
             (rev a, 45 # b @ ?kb, [(1, a)])"
    using first_Grp [OF first_Plus [of a Digit "45 # b @ ?kb" "[]" "[]"], of 1] a
    by (simp add: is_digit_def)
  have 2: "first_match (Star Space) (rev a, 45 # b @ ?kb, [(1, a)]) (rev a, 45 # b @ ?kb, [(1, a)])"
    by (rule first_Star_stay) (simp add: is_space_def)
  have 3: "first_match (Atom (OneOf dashes)) (rev a, 45 # b @ ?kb, [(1, a)])
             (45 # rev a, b @ ?kb, [(1, a)])"
    by (rule first_Atom) (simp add: d)
  have 4: "first_match (Star Space) (45 # rev a, b @ ?kb, [(1, a)]) (45 # rev a, b @ ?kb, [(1, a)])"
    by (rule first_Star_stay) (use b hb in \<open>simp add: digit_not_space\<close>)
  have 5: "first_match (Grp 2 (Plus Digit)) (45 # rev a, b @ ?kb, [(1, a)])
             (rev b @ 45 # rev a, ?kb, [(2, b), (1, a)])"
    using first_Grp [OF first_Plus [of b Digit ?kb "45 # rev a" "[(1, a)]"], of 2] b
    by (simp add: is_digit_def)
  have 6: "first_match (Star Space) (rev b @ 45 # rev a, ?kb, [(2, b), (1, a)])
             (rev b @ 45 # rev a, ?kb, [(2, b), (1, a)])"
    by (rule first_Star_stay) (simp add: is_space_def)
  have 7: "first_match (Str ''kb'') (rev b @ 45 # rev a, ?kb @ [], [(2, b), (1, a)])
             (rev ?kb @ rev b @ 45 # rev a, [], [(2, b), (1, a)])"
    by (rule first_Str) (simp add: ci_eq_def)
  have "first_match (rx_range dashes) ([], a @ 45 # b @ ?kb, [])
          (rev ?kb @ rev b @ 45 # rev a, [], [(2, b), (1, a)])"
    unfolding rx_range_def
    using 1 2 3 4 5 6 7 by (auto intro!: first_Cat)
  then have "match (a @ 45 # b @ ?kb) (rx_range dashes) = Some [(2, b), (1, a)]"
    by (rule first_match_search)
  then show ?thesis by (simp add: js_def)
qed

lemma range_parse:
  assumes "a \<noteq> []" "\<forall>c\<in>set a. is_digit c" "b \<noteq> []" "\<forall>c\<in>set b. is_digit c"
    and "45 \<in> set dashes"
  shows "minKb (parse_rules dashes (a @ js ''-'' @ b @ js ''kb'')) = parseInt a
       \<and> maxKb (parse_rules dashes (a @ js ''-'' @ b @ js ''kb'')) = parseInt b"
  using range_match [OF assms]
  by (simp add: parse_rules_def sizeMatch_def or_else_def grp_def)


lemma dims_match:
  assumes a: "a \<noteq> []" "\<forall>c\<in>set a. is_digit c"
    and b: "b \<noteq> []" "\<forall>c\<in>set b. is_digit c"
  shows "match (a @ js ''x'' @ b) rx_dims = Some [(2, b), (1, a)]"
proof -
  have hb: "is_digit (hd b)" using b by (cases b) auto
  have 1: "first_match (Grp 1 (Plus Digit)) ([], a @ 120 # b @ [], [])
             (rev a, 120 # b @ [], [(1, a)])"
    using first_Grp [OF first_Plus [of a Digit "120 # b @ []" "[]" "[]"], of 1] a
    by (simp add: is_digit_def)
  have 2: "first_match (Star Space) (rev a, 120 # b @ [], [(1, a)])
             (rev a, 120 # b @ [], [(1, a)])"
    by (rule first_Star_stay) (simp add: is_space_def)
  have 3: "first_match (Str ''x'') (rev a, [120] @ b @ [], [(1, a)])
             (rev [120] @ rev a, b @ [], [(1, a)])"
    by (rule first_Str) (simp add: ci_eq_def)
  have 4: "first_match (Star Space) (120 # rev a, b @ [], [(1, a)]) (120 # rev a, b @ [], [(1, a)])"
    by (rule first_Star_stay) (use b hb in \<open>simp add: digit_not_space\<close>)
  have 5: "first_match (Grp 2 (Plus Digit)) (120 # rev a, b @ [], [(1, a)])
             (rev b @ 120 # rev a, [], [(2, b), (1, a)])"
    using first_Grp [OF first_Plus [of b Digit "[]" "120 # rev a" "[(1, a)]"], of 2] b
    by simp
  have "first_match rx_dims ([], a @ 120 # b @ [], [])
          (rev b @ 120 # rev a, [], [(2, b), (1, a)])"
    unfolding rx_dims_def
    using 1 2 3 4 5 by (auto intro!: first_Cat)
  then have "match (a @ 120 # b @ []) rx_dims = Some [(2, b), (1, a)]"
    by (rule first_match_search)
  then show ?thesis by (simp add: js_def)
qed

lemma dims_parse:
  assumes "a \<noteq> []" "\<forall>c\<in>set a. is_digit c" "b \<noteq> []" "\<forall>c\<in>set b. is_digit c"
  shows "width (parse_rules dashes (a @ js ''x'' @ b)) = parseInt a
       \<and> height (parse_rules dashes (a @ js ''x'' @ b)) = parseInt b"
  using dims_match [OF assms]
  by (simp add: parse_rules_def widthMatch_def or_else_def grp_def)

lemma str_states_rest:
  "(pre', rest', caps') \<in> set (str_states ps (pre, rest, caps)) \<Longrightarrow> set rest' \<subseteq> set rest"
proof (induction ps arbitrary: pre rest)
  case Nil
  then show ?case by simp
next
  case (Cons p ps)
  then show ?case by (cases rest) (auto split: if_splits)
qed

lemma run_states_rest:
  "(pre', rest', caps') \<in> set (run_states k pre rest caps) \<Longrightarrow> set rest' \<subseteq> set rest"
  by (induction rest arbitrary: pre) (auto split: if_splits)

lemma ms_rest:
  "(pre', rest', caps') \<in> set (ms r (pre, rest, caps)) \<Longrightarrow> set rest' \<subseteq> set rest"
proof (induction r arbitrary: pre rest caps pre' rest' caps')
  case (Atom k)
  then show ?case by (cases rest) (auto split: if_splits)
next
  case (Str ps)
  then show ?case by (auto dest: str_states_rest)
next
  case (Cat a b)
  from Cat.prems obtain p1 r1 c1 where
    "(p1, r1, c1) \<in> set (ms a (pre, rest, caps))" "(pre', rest', caps') \<in> set (ms b (p1, r1, c1))"
    by auto
  with Cat.IH show ?case by blast
next
  case (Alt a b)
  from Alt.prems have "(pre', rest', caps') \<in> set (ms a (pre, rest, caps))
      \<or> (pre', rest', caps') \<in> set (ms b (pre, rest, caps))"
    by simp
  with Alt.IH show ?case by blast
next
  case (Grp n a)
  from Grp.prems obtain c1 where "(pre', rest', c1) \<in> set (ms a (pre, rest, caps))"
    by auto
  with Grp.IH show ?case by blast
next
  case (Star k)
  then show ?case by (auto dest: run_states_rest)
next
  case (Plus k)
  then show ?case by (cases rest) (auto split: if_splits dest: run_states_rest)
next
  case (LazyStar k)
  then show ?case by (auto dest: run_states_rest)
next
  case WordB
  then show ?case by (auto split: if_splits)
next
  case Eps
  then show ?case by simp
qed

lemma needs_Cat1: "needs P a \<Longrightarrow> needs P (Cat a b)"
  by (simp add: needs_def)

lemma needs_Cat2: "needs P b \<Longrightarrow> needs P (Cat a b)"
  unfolding needs_def
proof (intro allI impI)
  fix pre rest caps
  assume b: "\<forall>pre rest caps. (\<forall>c\<in>set rest. \<not> P c) \<longrightarrow> ms b (pre, rest, caps) = []"
    and rest: "\<forall>c\<in>set rest. \<not> P c"
  have "ms b s = []" if "s \<in> set (ms a (pre, rest, caps))" for s
  proof -
    obtain p1 r1 c1 where s: "s = (p1, r1, c1)" by (cases s)
    with that ms_rest have "set r1 \<subseteq> set rest" by blast
    with rest b show ?thesis unfolding s by blast
  qed
  then show "ms (Cat a b) (pre, rest, caps) = []" by simp
qed

lemma needs_Alt: "needs P a \<Longrightarrow> needs P b \<Longrightarrow> needs P (Alt a b)"
  by (simp add: needs_def)

lemma needs_Grp: "needs P a \<Longrightarrow> needs P (Grp n a)"
  by (simp add: needs_def)

lemma needs_Plus: "(\<And>c. cls_mem k c \<Longrightarrow> P c) \<Longrightarrow> needs P (Plus k)"
  unfolding needs_def
proof (intro allI impI)
  fix pre rest caps
  assume "\<And>c. cls_mem k c \<Longrightarrow> P c" "\<forall>c\<in>set rest. \<not> P c"
  then show "ms (Plus k) (pre, rest, caps) = []" by (cases rest) auto
qed

lemma needs_Str: "(\<And>c. ci_eq p c \<Longrightarrow> P c) \<Longrightarrow> needs P (Str (p # ps))"
  unfolding needs_def
proof (intro allI impI)
  fix pre rest caps
  assume "\<And>c. ci_eq p c \<Longrightarrow> P c" "\<forall>c\<in>set rest. \<not> P c"
  then show "ms (Str (p # ps)) (pre, rest, caps) = []" by (cases rest) auto
qed

lemma needs_search:
  "needs P r \<Longrightarrow> \<forall>c\<in>set rest. \<not> P c \<Longrightarrow> search r pre rest = None"
  by (induction rest arbitrary: pre) (simp_all add: needs_def)

lemma needs_match: "needs P r \<Longrightarrow> \<forall>c\<in>set t. \<not> P c \<Longrightarrow> match t r = None"
  by (simp add: match_def needs_search)

lemma needs_digit:
  "needs is_digit rx_dims" "needs is_digit rx_width_height" "needs is_digit (rx_range d)"
  "needs is_digit rx_size"
  unfolding rx_defs
  by (intro needs_Cat1 needs_Grp needs_Plus; simp)
     (intro needs_Cat2 [of _ _ "Str _"] needs_Cat2 [of _ _ "Plus (Either _ _)"] needs_Cat1
        needs_Grp needs_Plus; simp)+

lemma needs_format: "needs is_j_or_p rx_format"
  unfolding rx_format_def
  by (intro needs_Cat2 [of _ _ WordB] needs_Cat1 needs_Grp needs_Alt needs_Str)
     (auto simp: ci_eq_def is_j_or_p_def js_def)

lemma parse_rules_no_token:
  assumes "\<forall>c\<in>set t. \<not> is_digit c \<and> \<not> is_j_or_p c"
  shows "parse_rules d t
           = \<lparr>width = Num 200, height = Num 230, minKb = Num 20, maxKb = Num 50, format = js ''jpg''\<rparr>"
proof -
  from assms have nd: "\<forall>c\<in>set t. \<not> is_digit c" and nf: "\<forall>c\<in>set t. \<not> is_j_or_p c"
    by auto
  show ?thesis
    by (simp add: parse_rules_def widthMatch_def sizeMatch_def formatMatch_def or_else_def
        needs_match [OF needs_digit(1) nd] needs_match [OF needs_digit(2) nd]
        needs_match [OF needs_digit(3) nd] needs_match [OF needs_digit(4) nd]
        needs_match [OF needs_format nf])
qed


section \<open>The properties of the specification\<close>

text \<open>
  C1. For every image, every library behaviour and every rules, the quality search ends
  within its budget of attempts, 20 encodings in \<open>processImage\<close> and 15 in the loop of
  \<open>processClientSide\<close>, after at least one attempt, with no condition on the window. What
  it returns is the buffer of the last encoding it made; if the library fails, it is the
  last call that failed, and its error is what the loop throws. This holds as well when
  arguments or fields of the rules are \<open>undefined\<close>.
\<close>

theorem search_stops_within_budget:
  "(\<exists>cs res q. processImage env p w h mn mx f = (cs, res) \<and> 1 \<le> encodes cs \<and> encodes cs \<le> 20
       \<and> last cs = Encode (encoder_name (format_or_default f)) q
       \<and> ((\<exists>out. res = Inr (Some out)
                \<and> toBuffer env p w h (encoder_name (format_or_default f)) q = Inr out)
          \<or> (\<exists>err. res = Inl err
                \<and> toBuffer env p w h (encoder_name (format_or_default f)) q = Inl err)))
   \<and> (\<exists>st e q. client_loop cenv r \<lparr>quality = 92 / 100, outbuf = None, attempts = 0,
                                     calls = [Resize (field width r) (field height r)]\<rparr> = (st, e)
       \<and> 1 \<le> encodes (calls st) \<and> encodes (calls st) \<le> 15
       \<and> last (calls st) = Encode (mime_type r) q
       \<and> ((\<exists>blob. e = None \<and> outbuf st = Some blob
                  \<and> toBlob cenv (field width r) (field height r) (mime_type r) q = Some blob)
          \<or> (e = Some TypeError
                \<and> toBlob cenv (field width r) (field height r) (mime_type r) q = None)))"
proof
  let ?m = "encoder_name (format_or_default f)"
  obtain st e where run:
    "processImage_loop env p w h mn mx (format_or_default f)
       \<lparr>quality = 92, outbuf = None, attempts = 0, calls = []\<rparr> = (st, e)"
    by (cases "processImage_loop env p w h mn mx (format_or_default f)
                 \<lparr>quality = 92, outbuf = None, attempts = 0, calls = []\<rparr>")
  from processImage_loop_encodes [OF run] have le: "encodes (calls st) \<le> 20"
    by (simp add: maxAttempts_def)
  from processImage_loop_last [OF run] obtain q where q:
    "calls st \<noteq> []" "last (calls st) = Encode ?m q"
    "(\<exists>out. e = None \<and> toBuffer env p w h ?m q = Inr out \<and> outbuf st = Some out)
       \<or> (\<exists>err. e = Some err \<and> toBuffer env p w h ?m q = Inl err)"
    by (auto simp: maxAttempts_def)
  from q(1,2) have ge: "1 \<le> encodes (calls st)" by (rule encodes_last)
  from q(3) show "\<exists>cs res q. processImage env p w h mn mx f = (cs, res) \<and> 1 \<le> encodes cs
       \<and> encodes cs \<le> 20 \<and> last cs = Encode ?m q
       \<and> ((\<exists>out. res = Inr (Some out) \<and> toBuffer env p w h ?m q = Inr out)
          \<or> (\<exists>err. res = Inl err \<and> toBuffer env p w h ?m q = Inl err))"
    using run le ge q(2) by (auto simp: processImage_def)
next
  let ?init = "\<lparr>quality = 92 / 100, outbuf = None, attempts = 0,
                calls = [Resize (field width r) (field height r)]\<rparr> :: (rat, 'b) search_state"
  obtain st e where run: "client_loop cenv r ?init = (st, e)"
    by (cases "client_loop cenv r ?init")
  from client_loop_encodes [OF run] have le: "encodes (calls st) \<le> 15" by simp
  from client_loop_last [OF run] obtain q where q:
    "calls st \<noteq> []" "last (calls st) = Encode (mime_type r) q"
    "(\<exists>blob. e = None \<and> toBlob cenv (field width r) (field height r) (mime_type r) q = Some blob
                \<and> outbuf st = Some blob)
        \<or> (e = Some TypeError
             \<and> toBlob cenv (field width r) (field height r) (mime_type r) q = None)"
    by auto
  from q(1,2) have ge: "1 \<le> encodes (calls st)" by (rule encodes_last)
  from q(3) show "\<exists>st e q. client_loop cenv r ?init = (st, e)
       \<and> 1 \<le> encodes (calls st) \<and> encodes (calls st) \<le> 15
       \<and> last (calls st) = Encode (mime_type r) q
       \<and> ((\<exists>blob. e = None \<and> outbuf st = Some blob
                  \<and> toBlob cenv (field width r) (field height r) (mime_type r) q = Some blob)
          \<or> (e = Some TypeError
                \<and> toBlob cenv (field width r) (field height r) (mime_type r) q = None))"
    using run le ge q(2) by auto
qed

text \<open>
  C2, evaluated where the backend departs from it. An image that encodes to 51203 bytes
  at every quality, with the preset \<open>photo\<close> (20 to 50 kilobytes): the loop never finds the
  size in its window, since 51203 bytes are 50.0029 kilobytes, and returns the last buffer.
  The handler rounds the size to 50.00 and reports \<open>valid = true\<close> for it. The frontend, on
  the same sizes, reports \<open>valid = false\<close>.
\<close>

theorem backend_valid_on_rounded_size:
  "snd (process_handler (stub_sharp flat_size)
       \<lparr>file_path = Some ''upload'', preset = Some (js ''photo''), ruleText = None\<rparr>
       {''upload'', ''other''})
     = (Json \<lparr>res_width = Num 200, res_height = Num 230, sizeKb = 50, res_format = js ''JPG'',
              valid = True, image = (200, 230, 51203)\<rparr>, {''other''})
   \<and> blength (stub_sharp flat_size) (200, 230, 51203) = 51203
   \<and> \<not> in_window (51203 / 1024) (Some (Num 20)) (Some (Num 50))
   \<and> snd (processClientSide (stub_canvas flat_size) True (js ''photo'') [])
     = ResultSet \<lparr>res_width = Num 200, res_height = Num 230, sizeKb = 50,
                  res_format = js ''JPG'', valid = False, image = 51203\<rparr>"
proof (intro conjI)
  show "snd (process_handler (stub_sharp flat_size)
       \<lparr>file_path = Some ''upload'', preset = Some (js ''photo''), ruleText = None\<rparr>
       {''upload'', ''other''})
     = (Json \<lparr>res_width = Num 200, res_height = Num 230, sizeKb = 50, res_format = js ''JPG'',
              valid = True, image = (200, 230, 51203)\<rparr>, {''other''})"
    by (simp add: handler_backend_flat)
  show "blength (stub_sharp flat_size) (200, 230, 51203) = 51203"
    by (simp add: stub_sharp_def)
  show "\<not> in_window (51203 / 1024) (Some (Num 20)) (Some (Num 50))"
    by (simp add: in_window_def)
  show "snd (processClientSide (stub_canvas flat_size) True (js ''photo'') [])
     = ResultSet \<lparr>res_width = Num 200, res_height = Num 230, sizeKb = 50,
                  res_format = js ''JPG'', valid = False, image = 51203\<rparr>"
    by (simp add: run_frontend_flat)
qed




text \<open>
  C4. Every quality passed to an encoder lies within the range of the scale: between 10
  and 100 in the backend, between 0.1 and 1 in the frontend, whatever the image, the
  library and the rules are.
\<close>

theorem quality_stays_in_range:
  "qualities_within 10 100 (fst (processImage env p w h mn mx f))
   \<and> qualities_within (1 / 10) 1 (fst (processClientSide cenv up sp cr))"
  using processImage_quality processClientSide_quality by blast

theorem quality_stays_in_range_witness:
  "Encode (js ''jpeg'') 10
     \<in> set (fst (processImage (stub_sharp flat_size) ''upload'' (Some (Num 200)) (Some (Num 230))
                    (Some (Num 20)) (Some (Num 50)) (Some (js ''jpg''))))
   \<and> Encode (js ''image/jpeg'') 1
     \<in> set (fst (processClientSide (stub_canvas tiny_size) True (js ''photo'') []))
   \<and> qualities_within 10 100
        (fst (processImage (stub_sharp flat_size) ''upload'' (Some (Num 200)) (Some (Num 230))
                (Some (Num 20)) (Some (Num 50)) (Some (js ''jpg''))))
   \<and> qualities_within (1 / 10) 1
        (fst (processClientSide (stub_canvas tiny_size) True (js ''photo'') []))"
  using quality_stays_in_range [of "stub_sharp flat_size" "''upload''" "Some (Num 200)"
      "Some (Num 230)" "Some (Num 20)" "Some (Num 50)" "Some (js ''jpg'')"
      "stub_canvas tiny_size" True "js ''photo''" "[]"]
  by (simp add: run_backend_flat run_frontend_tiny)

text \<open>
  C5 as stated fails in the frontend: below the window the frontend raises the quality
  by 0.02, which is 2 percent of its scale, not 3 percent. On the image that encodes to
  1 kilobyte at every quality, with the preset \<open>photo\<close>, the attempt that follows the one
  at 0.92 is made at 0.94, not at 0.95.
\<close>

theorem frontend_increase_step_is_two_percent:
  "fst (processClientSide (stub_canvas tiny_size) True (js ''photo'') [])
     = Resize (Some (Num 200)) (Some (Num 230))
       # map (Encode (js ''image/jpeg''))
           [92 / 100, 94 / 100, 96 / 100, 98 / 100, 1, 1, 1, 1, 1, 1, 1, 1, 1, 1, 1]
   \<and> of_nat (bsize (stub_canvas tiny_size) (tiny_size (92 / 100 :: rat))) / 1024 < (20 :: rat)
   \<and> adjust_quality_client (of_nat (tiny_size (92 / 100 :: rat)) / 1024)
        (Some (Num 20)) (Some (Num 50)) (92 / 100) = 94 / 100
   \<and> (94 / 100 :: rat) \<noteq> max (1 / 10) (min 1 (92 / 100 + 3 / 100))"
  by (simp add: run_frontend_tiny)
     (simp add: stub_canvas_def tiny_size_def adjust_quality_client_def)

text \<open>
  C5, amended. In every iteration in which the encoded size is outside the window, the
  size is above \<open>maxKb\<close> or below \<open>minKb\<close>, and the loop goes on with the new buffer, one
  more attempt, and a new quality: when the size is above \<open>maxKb\<close>, the quality less 5
  (backend) or less 0.05 (frontend), which is 5 percent of the scale; otherwise the
  quality plus 3 (backend, 3 percent) or plus 0.02 (frontend, 2 percent); in each case
  clamped to the range from 10 to 100, or from 0.1 to 1. The bounds of the window are
  integers below \<open>2^53\<close>.
\<close>

theorem quality_steps:
  "(attempts st < maxAttempts
      \<and> toBuffer env p w h (encoder_name f) (quality st) = Inr out
      \<and> \<not> in_window (of_nat (blength env out) / 1024) (Some (Num mn)) (Some (Num mx)) \<longrightarrow>
    processImage_loop env p w h (Some (Num mn)) (Some (Num mx)) f st
      = processImage_loop env p w h (Some (Num mn)) (Some (Num mx)) f
          (st\<lparr>calls := calls st @ [Resize w h, Encode (encoder_name f) (quality st)],
              outbuf := Some out,
              quality := (if of_nat (blength env out) / 1024 > (of_nat mx :: rat)
                          then max 10 (min 100 (quality st - 5))
                          else max 10 (min 100 (quality st + 3))),
              attempts := attempts st + 1\<rparr>)
    \<and> (of_nat (blength env out) / 1024 > (of_nat mx :: rat)
        \<or> of_nat (blength env out) / 1024 < (of_nat mn :: rat)))
   \<and> (attempts cst < 15 \<and> minKb r = Num mn' \<and> maxKb r = Num mx'
      \<and> toBlob cenv (Some (width r)) (Some (height r)) (mime_type (Rules r)) (quality cst)
          = Some blob
      \<and> \<not> in_window (of_nat (bsize cenv blob) / 1024) (Some (Num mn')) (Some (Num mx')) \<longrightarrow>
    client_loop cenv (Rules r) cst
      = client_loop cenv (Rules r)
          (cst\<lparr>calls := calls cst @ [Encode (mime_type (Rules r)) (quality cst)],
               outbuf := Some blob,
               quality := (if of_nat (bsize cenv blob) / 1024 > (of_nat mx' :: rat)
                           then max (1 / 10) (min 1 (quality cst - 5 / 100))
                           else max (1 / 10) (min 1 (quality cst + 2 / 100))),
               attempts := attempts cst + 1\<rparr>)
    \<and> (of_nat (bsize cenv blob) / 1024 > (of_nat mx' :: rat)
        \<or> of_nat (bsize cenv blob) / 1024 < (of_nat mn' :: rat)))"
proof (intro conjI impI)
  let ?s = "of_nat (blength env out) / 1024 :: rat"
  assume a: "attempts st < maxAttempts
      \<and> toBuffer env p w h (encoder_name f) (quality st) = Inr out
      \<and> \<not> in_window ?s (Some (Num mn)) (Some (Num mx))"
  then have "processImage_loop env p w h (Some (Num mn)) (Some (Num mx)) f st
      = processImage_loop env p w h (Some (Num mn)) (Some (Num mx)) f
         (st\<lparr>calls := calls st @ [Resize w h, Encode (encoder_name f) (quality st)],
             outbuf := Some out,
             quality := adjust_quality ?s (Some (Num mn)) (Some (Num mx)) (quality st),
             attempts := attempts st + 1\<rparr>)"
    by (simp add: loop_miss)
  moreover from a have "adjust_quality ?s (Some (Num mn)) (Some (Num mx)) (quality st)
      = (if ?s > of_nat mx
         then max 10 (min 100 (quality st - 5)) else max 10 (min 100 (quality st + 3)))"
    using miss_below [of ?s "Num mn" "Num mx"] by (simp add: adjust_quality_def)
  ultimately show "processImage_loop env p w h (Some (Num mn)) (Some (Num mx)) f st
      = processImage_loop env p w h (Some (Num mn)) (Some (Num mx)) f
          (st\<lparr>calls := calls st @ [Resize w h, Encode (encoder_name f) (quality st)],
              outbuf := Some out,
              quality := (if ?s > of_nat mx
                          then max 10 (min 100 (quality st - 5))
                          else max 10 (min 100 (quality st + 3))),
              attempts := attempts st + 1\<rparr>)"
    by simp
  from a show "?s > of_nat mx \<or> ?s < of_nat mn"
    using miss_below [of ?s "Num mn" "Num mx"] by auto
next
  let ?s = "of_nat (bsize cenv blob) / 1024 :: rat"
  assume a: "attempts cst < 15 \<and> minKb r = Num mn' \<and> maxKb r = Num mx'
      \<and> toBlob cenv (Some (width r)) (Some (height r)) (mime_type (Rules r)) (quality cst)
          = Some blob
      \<and> \<not> in_window ?s (Some (Num mn')) (Some (Num mx'))"
  then have "client_loop cenv (Rules r) cst
      = client_loop cenv (Rules r)
         (cst\<lparr>calls := calls cst @ [Encode (mime_type (Rules r)) (quality cst)],
             outbuf := Some blob,
             quality := adjust_quality_client ?s (field minKb (Rules r)) (field maxKb (Rules r))
                          (quality cst),
             attempts := attempts cst + 1\<rparr>)"
    using client_miss [of cst cenv "Rules r" blob] by simp
  with a show "client_loop cenv (Rules r) cst
      = client_loop cenv (Rules r)
          (cst\<lparr>calls := calls cst @ [Encode (mime_type (Rules r)) (quality cst)],
               outbuf := Some blob,
               quality := (if ?s > of_nat mx'
                           then max (1 / 10) (min 1 (quality cst - 5 / 100))
                           else max (1 / 10) (min 1 (quality cst + 2 / 100))),
               attempts := attempts cst + 1\<rparr>)"
    by (simp add: adjust_quality_client_def)
  from a show "?s > of_nat mx' \<or> ?s < of_nat mn'"
    using miss_below [of ?s "Num mn'" "Num mx'"] by auto
qed

theorem quality_steps_witness:
  "toBuffer (stub_sharp flat_size) ''upload'' (Some (Num 200)) (Some (Num 230))
       (encoder_name (js ''jpg'')) 92
     = Inr (200, 230, 51203)
   \<and> \<not> in_window (of_nat (blength (stub_sharp flat_size) (200, 230, 51203)) / 1024)
         (Some (Num 20)) (Some (Num 50))
   \<and> processImage_loop (stub_sharp flat_size) ''upload'' (Some (Num 200)) (Some (Num 230))
        (Some (Num 20)) (Some (Num 50)) (js ''jpg'')
        \<lparr>quality = 92, outbuf = None, attempts = 0, calls = []\<rparr>
     = processImage_loop (stub_sharp flat_size) ''upload'' (Some (Num 200)) (Some (Num 230))
        (Some (Num 20)) (Some (Num 50)) (js ''jpg'')
        \<lparr>quality = 87, outbuf = Some (200, 230, 51203), attempts = 1,
         calls = [Resize (Some (Num 200)) (Some (Num 230)), Encode (js ''jpeg'') 92]\<rparr>
   \<and> minKb photo_rules = Num 20 \<and> maxKb photo_rules = Num 50
   \<and> toBlob (stub_canvas tiny_size) (Some (Num 200)) (Some (Num 230))
        (mime_type (Rules photo_rules)) (92 / 100) = Some 1024
   \<and> \<not> in_window (of_nat (bsize (stub_canvas tiny_size) 1024) / 1024)
         (Some (Num 20)) (Some (Num 50))
   \<and> client_loop (stub_canvas tiny_size) (Rules photo_rules)
        \<lparr>quality = 92 / 100, outbuf = None, attempts = 0,
         calls = [Resize (Some (Num 200)) (Some (Num 230))]\<rparr>
     = client_loop (stub_canvas tiny_size) (Rules photo_rules)
        \<lparr>quality = 94 / 100, outbuf = Some 1024, attempts = 1,
         calls = [Resize (Some (Num 200)) (Some (Num 230)),
                  Encode (js ''image/jpeg'') (92 / 100)]\<rparr>"
  using quality_steps [of "\<lparr>quality = 92, outbuf = None, attempts = 0, calls = []\<rparr>"
      "stub_sharp flat_size" "''upload''" "Some (Num 200)" "Some (Num 230)" "js ''jpg''"
      "(200, 230, 51203)" 20 50
      "\<lparr>quality = 92 / 100, outbuf = None, attempts = 0,
        calls = [Resize (Some (Num 200)) (Some (Num 230))]\<rparr>"
      photo_rules 20 50 "stub_canvas tiny_size" 1024]
  by (simp add: stub_sharp_def stub_canvas_def flat_size_def tiny_size_def maxAttempts_def
      in_window_def photo_rules_def mime_type_def encoder_name_def js_def)

text \<open>
  C6 as stated fails: on the same image and the same rules the two paths can return
  different results. The image encodes to 30 kilobytes at a quality of 20 percent or less
  and to 100 kilobytes above; the rules are the preset \<open>photo\<close>, 20 to 50 kilobytes. The
  backend steps down from 92 by 5, reaches 17 in its sixteenth attempt and returns a
  valid result of 30 kilobytes. The frontend has 15 attempts, which take it from 0.92
  down to 0.22 and never to 0.2 or less; it returns a result of 100 kilobytes that is not
  valid.
\<close>

theorem paths_disagree:
  "(\<forall>q. low_frontend (of_int q / 100) = low_backend q)
   \<and> process_handler (stub_sharp low_backend)
       \<lparr>file_path = Some ''upload'', preset = Some (js ''photo''), ruleText = None\<rparr>
       {''upload'', ''other''}
     = (concat (map (\<lambda>q. [Resize (Some (Num 200)) (Some (Num 230)), Encode (js ''jpeg'') q])
                 [92, 87, 82, 77, 72, 67, 62, 57, 52, 47, 42, 37, 32, 27, 22, 17]),
        Json \<lparr>res_width = Num 200, res_height = Num 230, sizeKb = 30, res_format = js ''JPG'',
              valid = True, image = (200, 230, 30720)\<rparr>,
        {''other''})
   \<and> snd (processClientSide (stub_canvas low_frontend) True (js ''photo'') [])
     = ResultSet \<lparr>res_width = Num 200, res_height = Num 230, sizeKb = 100,
                  res_format = js ''JPG'', valid = False, image = 102400\<rparr>
   \<and> encodes (fst (processClientSide (stub_canvas low_frontend) True (js ''photo'') [])) = 15
   \<and> qualities_within (21 / 100) 1
        (fst (processClientSide (stub_canvas low_frontend) True (js ''photo'') []))"
proof (intro conjI)
  show "\<forall>q. low_frontend (of_int q / 100) = low_backend q"
    by (simp add: low_same_image)
  show "process_handler (stub_sharp low_backend)
       \<lparr>file_path = Some ''upload'', preset = Some (js ''photo''), ruleText = None\<rparr>
       {''upload'', ''other''}
     = (concat (map (\<lambda>q. [Resize (Some (Num 200)) (Some (Num 230)), Encode (js ''jpeg'') q])
                 [92, 87, 82, 77, 72, 67, 62, 57, 52, 47, 42, 37, 32, 27, 22, 17]),
        Json \<lparr>res_width = Num 200, res_height = Num 230, sizeKb = 30, res_format = js ''JPG'',
              valid = True, image = (200, 230, 30720)\<rparr>,
        {''other''})"
    by (rule handler_backend_low)
  show "snd (processClientSide (stub_canvas low_frontend) True (js ''photo'') [])
     = ResultSet \<lparr>res_width = Num 200, res_height = Num 230, sizeKb = 100,
                  res_format = js ''JPG'', valid = False, image = 102400\<rparr>"
    by (simp add: run_frontend_low)
  show "encodes (fst (processClientSide (stub_canvas low_frontend) True (js ''photo'') [])) = 15"
    by (simp add: run_frontend_low encodes_def)
  show "qualities_within (21 / 100) 1
        (fst (processClientSide (stub_canvas low_frontend) True (js ''photo'') []))"
    by (auto simp: run_frontend_low qualities_within_def)
qed

text \<open>
  C6, amended. Both loops are the search of section 4.2 of the specification, with the
  same window test, run with different parameters: the backend starts at 92, steps down
  by 5 and up by 3 within 10 to 100, for at most 20 attempts; the frontend starts at 0.92,
  steps down by 0.05 and up by 0.02 within 0.1 to 1, for at most 15 attempts. For a window
  of two integers below \<open>2^53\<close>, each tries exactly the qualities of that search and
  returns what it returns.
\<close>

theorem both_paths_are_fit:
  "(\<exists>qs res. fit backend_scale (toBuffer env p w h (encoder_name (format_or_default f)))
                (blength env) mn mx = (qs, res)
       \<and> processImage env p w h (Some (Num mn)) (Some (Num mx)) f
           = (concat (map (\<lambda>q. [Resize w h, Encode (encoder_name (format_or_default f)) q]) qs),
              res))
   \<and> (\<exists>qs res st e.
         fit frontend_scale
           (\<lambda>q. blob_or_error
                  (toBlob cenv (Some w') (Some h')
                     (mime_type (Rules \<lparr>width = w', height = h', minKb = Num mn',
                                        maxKb = Num mx', format = f'\<rparr>)) q))
           (bsize cenv) mn' mx' = (qs, res)
       \<and> client_loop cenv (Rules \<lparr>width = w', height = h', minKb = Num mn', maxKb = Num mx',
                                   format = f'\<rparr>)
           \<lparr>quality = 92 / 100, outbuf = None, attempts = 0,
            calls = [Resize (Some w') (Some h')]\<rparr> = (st, e)
       \<and> calls st
           = Resize (Some w') (Some h')
             # map (Encode (mime_type (Rules \<lparr>width = w', height = h', minKb = Num mn',
                                               maxKb = Num mx', format = f'\<rparr>))) qs
       \<and> res = (case e of None \<Rightarrow> Inr (outbuf st) | Some err \<Rightarrow> Inl err))"
proof
  let ?f = "format_or_default f"
  let ?init = "\<lparr>quality = 92, outbuf = None, attempts = 0, calls = []\<rparr> :: (int, 'a) search_state"
  obtain st e where run:
    "processImage_loop env p w h (Some (Num mn)) (Some (Num mx)) ?f ?init = (st, e)"
    by (cases "processImage_loop env p w h (Some (Num mn)) (Some (Num mx)) ?f ?init")
  obtain qs res where f:
    "fit backend_scale (toBuffer env p w h (encoder_name ?f)) (blength env) mn mx = (qs, res)"
    by (cases "fit backend_scale (toBuffer env p w h (encoder_name ?f)) (blength env) mn mx")
  then have "fit_search backend_scale (toBuffer env p w h (encoder_name ?f)) (blength env) mn mx
       (maxAttempts - attempts ?init) (quality ?init) (outbuf ?init) = (qs, res)"
    by (simp add: fit_def backend_scale_def maxAttempts_def)
  from processImage_loop_fit [OF run this] run f
  show "\<exists>qs res. fit backend_scale (toBuffer env p w h (encoder_name ?f)) (blength env) mn mx
         = (qs, res)
       \<and> processImage env p w h (Some (Num mn)) (Some (Num mx)) f
           = (concat (map (\<lambda>q. [Resize w h, Encode (encoder_name ?f) q]) qs), res)"
    by (cases e) (simp_all add: processImage_def)
next
  let ?r = "Rules \<lparr>width = w', height = h', minKb = Num mn', maxKb = Num mx', format = f'\<rparr>"
  let ?init = "\<lparr>quality = 92 / 100, outbuf = None, attempts = 0,
                calls = [Resize (Some w') (Some h')]\<rparr> :: (rat, 'b) search_state"
  let ?enc = "\<lambda>q. blob_or_error (toBlob cenv (Some w') (Some h') (mime_type ?r) q)"
  have fl: "field minKb ?r = Some (Num mn')" "field maxKb ?r = Some (Num mx')"
    "field width ?r = Some w'" "field height ?r = Some h'"
    by simp_all
  obtain st e where run: "client_loop cenv ?r ?init = (st, e)"
    by (cases "client_loop cenv ?r ?init")
  obtain qs res where f: "fit frontend_scale ?enc (bsize cenv) mn' mx' = (qs, res)"
    by (cases "fit frontend_scale ?enc (bsize cenv) mn' mx'")
  then have "fit_search frontend_scale
       (\<lambda>q. blob_or_error (toBlob cenv (field width ?r) (field height ?r) (mime_type ?r) q))
       (bsize cenv) mn' mx' (15 - attempts ?init) (quality ?init) (outbuf ?init) = (qs, res)"
    by (simp add: fit_def frontend_scale_def)
  from client_loop_fit [OF fl(1,2) run this] run f
  show "\<exists>qs res st e. fit frontend_scale ?enc (bsize cenv) mn' mx' = (qs, res)
       \<and> client_loop cenv ?r ?init = (st, e)
       \<and> calls st = Resize (Some w') (Some h') # map (Encode (mime_type ?r)) qs
       \<and> res = (case e of None \<Rightarrow> Inr (outbuf st) | Some err \<Rightarrow> Inl err)"
    by simp
qed




text \<open>
  C8. The text \<open>200x230, 20-50kb, jpg\<close> parses to width 200, height 230, 20 to 50
  kilobytes, format \<open>jpg\<close>, in both parsers. The parser is a total function into rules: it
  has no error to raise. The three searches are independent: each field is read from the
  match of its own search, and each search that finds nothing leaves its fields at the
  defaults 200, 230, 20, 50, \<open>jpg\<close>. So \<open>Width: 300, Height: 400, size: 30 to 60 kb, PNG\<close>
  parses to 300, 400, 30, 60, \<open>png\<close>, and \<open>350x450 pixels, 30-60KB, JPEG\<close> to 350, 450,
  30, 60, \<open>jpeg\<close>; two numbers written in digits with an \<open>x\<close> between them are the width and
  the height. A text without a digit and without any of the letters j, J, p, P parses to
  exactly the default rules.
\<close>

theorem free_text_defaults:
  "parseRuleText (js ''200x230, 20-50kb, jpg'')
     = \<lparr>width = Num 200, height = Num 230, minKb = Num 20, maxKb = Num 50, format = js ''jpg''\<rparr>
   \<and> parseCustomRule (js ''200x230, 20-50kb, jpg'')
     = \<lparr>width = Num 200, height = Num 230, minKb = Num 20, maxKb = Num 50, format = js ''jpg''\<rparr>
   \<and> parseRuleText (js ''Width: 300, Height: 400, size: 30 to 60 kb, PNG'')
     = \<lparr>width = Num 300, height = Num 400, minKb = Num 30, maxKb = Num 60, format = js ''png''\<rparr>
   \<and> parseCustomRule (js ''Width: 300, Height: 400, size: 30 to 60 kb, PNG'')
     = \<lparr>width = Num 300, height = Num 400, minKb = Num 30, maxKb = Num 60, format = js ''png''\<rparr>
   \<and> parseRuleText (js ''350x450 pixels, 30-60KB, JPEG'')
     = \<lparr>width = Num 350, height = Num 450, minKb = Num 30, maxKb = Num 60, format = js ''jpeg''\<rparr>
   \<and> parseCustomRule (js ''350x450 pixels, 30-60KB, JPEG'')
     = \<lparr>width = Num 350, height = Num 450, minKb = Num 30, maxKb = Num 60, format = js ''jpeg''\<rparr>
   \<and> (widthMatch t = None \<longrightarrow>
        width (parseRuleText t) = Num 200 \<and> height (parseRuleText t) = Num 230
        \<and> width (parseCustomRule t) = Num 200 \<and> height (parseCustomRule t) = Num 230)
   \<and> (widthMatch t = Some m \<longrightarrow>
        width (parseRuleText t) = parseInt (grp m 1)
        \<and> height (parseRuleText t) = parseInt (grp m 2)
        \<and> width (parseCustomRule t) = parseInt (grp m 1)
        \<and> height (parseCustomRule t) = parseInt (grp m 2))
   \<and> (sizeMatch backend_dashes t = None \<longrightarrow>
        minKb (parseRuleText t) = Num 20 \<and> maxKb (parseRuleText t) = Num 50)
   \<and> (sizeMatch backend_dashes t = Some sb \<longrightarrow>
        minKb (parseRuleText t) = parseInt (grp sb 1)
        \<and> maxKb (parseRuleText t) = parseInt (grp sb 2))
   \<and> (sizeMatch frontend_dashes t = None \<longrightarrow>
        minKb (parseCustomRule t) = Num 20 \<and> maxKb (parseCustomRule t) = Num 50)
   \<and> (sizeMatch frontend_dashes t = Some sf \<longrightarrow>
        minKb (parseCustomRule t) = parseInt (grp sf 1)
        \<and> maxKb (parseCustomRule t) = parseInt (grp sf 2))
   \<and> (formatMatch t = None \<longrightarrow>
        format (parseRuleText t) = js ''jpg'' \<and> format (parseCustomRule t) = js ''jpg'')
   \<and> (formatMatch t = Some fm \<longrightarrow>
        format (parseRuleText t) = toLowerCase (grp fm 1)
        \<and> format (parseCustomRule t) = toLowerCase (grp fm 1))
   \<and> (a \<noteq> [] \<and> b \<noteq> [] \<and> (\<forall>c\<in>set (a @ b). is_digit c) \<longrightarrow>
        width (parseRuleText (a @ js ''x'' @ b)) = parseInt a
        \<and> height (parseRuleText (a @ js ''x'' @ b)) = parseInt b
        \<and> width (parseCustomRule (a @ js ''x'' @ b)) = parseInt a
        \<and> height (parseCustomRule (a @ js ''x'' @ b)) = parseInt b)
   \<and> ((\<forall>c\<in>set t. \<not> is_digit c \<and> \<not> is_j_or_p c) \<longrightarrow>
        parseRuleText t = default_rules \<and> parseCustomRule t = default_rules)"
proof (intro conjI impI)
  show "parseRuleText (js ''200x230, 20-50kb, jpg'')
     = \<lparr>width = Num 200, height = Num 230, minKb = Num 20, maxKb = Num 50, format = js ''jpg''\<rparr>"
    by (simp add: parse_defs rx_defs)
  show "parseCustomRule (js ''200x230, 20-50kb, jpg'')
     = \<lparr>width = Num 200, height = Num 230, minKb = Num 20, maxKb = Num 50, format = js ''jpg''\<rparr>"
    by (simp add: parse_defs rx_defs)
  show "parseRuleText (js ''Width: 300, Height: 400, size: 30 to 60 kb, PNG'')
     = \<lparr>width = Num 300, height = Num 400, minKb = Num 30, maxKb = Num 60, format = js ''png''\<rparr>"
    by (simp add: parse_defs rx_defs)
  show "parseCustomRule (js ''Width: 300, Height: 400, size: 30 to 60 kb, PNG'')
     = \<lparr>width = Num 300, height = Num 400, minKb = Num 30, maxKb = Num 60, format = js ''png''\<rparr>"
    by (simp add: parse_defs rx_defs)
  show "parseRuleText (js ''350x450 pixels, 30-60KB, JPEG'')
     = \<lparr>width = Num 350, height = Num 450, minKb = Num 30, maxKb = Num 60, format = js ''jpeg''\<rparr>"
    by (simp add: parse_defs rx_defs)
  show "parseCustomRule (js ''350x450 pixels, 30-60KB, JPEG'')
     = \<lparr>width = Num 350, height = Num 450, minKb = Num 30, maxKb = Num 60, format = js ''jpeg''\<rparr>"
    by (simp add: parse_defs rx_defs)
next
  assume ab: "a \<noteq> [] \<and> b \<noteq> [] \<and> (\<forall>c\<in>set (a @ b). is_digit c)"
  then have d: "a \<noteq> []" "\<forall>c\<in>set a. is_digit c" "b \<noteq> []" "\<forall>c\<in>set b. is_digit c"
    by auto
  from dims_parse [OF d, of backend_dashes]
  show "width (parseRuleText (a @ js ''x'' @ b)) = parseInt a"
    "height (parseRuleText (a @ js ''x'' @ b)) = parseInt b"
    by (simp_all add: parseRuleText_def)
  from dims_parse [OF d, of frontend_dashes]
  show "width (parseCustomRule (a @ js ''x'' @ b)) = parseInt a"
    "height (parseCustomRule (a @ js ''x'' @ b)) = parseInt b"
    by (simp_all add: parseCustomRule_def)
qed (simp_all add: parseRuleText_def parseCustomRule_def parse_rules_no_token default_rules_def,
     simp_all add: parse_rules_def)

theorem free_text_defaults_witness:
  "widthMatch (js ''hello world'') = None
   \<and> sizeMatch backend_dashes (js ''hello world'') = None
   \<and> sizeMatch frontend_dashes (js ''hello world'') = None
   \<and> formatMatch (js ''hello world'') = None
   \<and> list_all (\<lambda>c. \<not> is_digit c \<and> \<not> is_j_or_p c) (js ''hello world'')
   \<and> parseRuleText (js ''hello world'') = default_rules
   \<and> parseCustomRule (js ''hello world'') = default_rules
   \<and> widthMatch (js ''350x450 pixels, 30-60KB, JPEG'') = Some [(2, js ''450''), (1, js ''350'')]
   \<and> sizeMatch backend_dashes (js ''350x450 pixels, 30-60KB, JPEG'')
       = Some [(2, js ''60''), (1, js ''30'')]
   \<and> sizeMatch frontend_dashes (js ''350x450 pixels, 30-60KB, JPEG'')
       = Some [(2, js ''60''), (1, js ''30'')]
   \<and> formatMatch (js ''350x450 pixels, 30-60KB, JPEG'') = Some [(1, js ''JPEG'')]
   \<and> parseInt (grp [(2, js ''450''), (1, js ''350'')] 1) = Num 350
   \<and> parseInt (grp [(2, js ''450''), (1, js ''350'')] 2) = Num 450
   \<and> toLowerCase (grp [(1, js ''JPEG'')] 1) = js ''jpeg''
   \<and> width (parseRuleText (js ''350x450 pixels, 30-60KB, JPEG'')) = Num 350
   \<and> height (parseCustomRule (js ''350x450 pixels, 30-60KB, JPEG'')) = Num 450
   \<and> format (parseRuleText (js ''350x450 pixels, 30-60KB, JPEG'')) = js ''jpeg''
   \<and> js ''640'' \<noteq> [] \<and> js ''480'' \<noteq> [] \<and> list_all is_digit (js ''640'' @ js ''480'')
   \<and> parseInt (js ''640'') = Num 640 \<and> parseInt (js ''480'') = Num 480
   \<and> width (parseRuleText (js ''640'' @ js ''x'' @ js ''480'')) = Num 640
   \<and> height (parseCustomRule (js ''640'' @ js ''x'' @ js ''480'')) = Num 480"
proof -
  let ?t = "js ''350x450 pixels, 30-60KB, JPEG''"
  have h: "\<forall>c\<in>set (js ''hello world''). \<not> is_digit c \<and> \<not> is_j_or_p c"
    by (simp add: js_def is_digit_def is_j_or_p_def)
  have m: "widthMatch (js ''hello world'') = None"
    "sizeMatch backend_dashes (js ''hello world'') = None"
    "sizeMatch frontend_dashes (js ''hello world'') = None"
    "formatMatch (js ''hello world'') = None"
    by (simp_all add: parse_defs rx_defs)
  have s: "widthMatch ?t = Some [(2, js ''450''), (1, js ''350'')]"
    "sizeMatch backend_dashes ?t = Some [(2, js ''60''), (1, js ''30'')]"
    "sizeMatch frontend_dashes ?t = Some [(2, js ''60''), (1, js ''30'')]"
    "formatMatch ?t = Some [(1, js ''JPEG'')]"
    by (simp_all add: parse_defs rx_defs)
  have v: "parseInt (grp [(2, js ''450''), (1, js ''350'')] 1) = Num 350"
    "parseInt (grp [(2, js ''450''), (1, js ''350'')] 2) = Num 450"
    "toLowerCase (grp [(1, js ''JPEG'')] 1) = js ''jpeg''"
    "parseInt (js ''640'') = Num 640" "parseInt (js ''480'') = Num 480"
    by (simp_all add: parseInt_def decimal_def grp_def toLowerCase_def js_def)
  have d: "js ''640'' \<noteq> [] \<and> js ''480'' \<noteq> [] \<and> (\<forall>c\<in>set (js ''640'' @ js ''480''). is_digit c)"
    by (simp add: js_def is_digit_def)
  then have l: "list_all is_digit (js ''640'' @ js ''480'')"
    by (simp add: list_all_iff)
  from h have "list_all (\<lambda>c. \<not> is_digit c \<and> \<not> is_j_or_p c) (js ''hello world'')"
    by (simp add: list_all_iff)
  with m h s v d l
    free_text_defaults [of "js ''hello world''" "[]" "[]" "[]" "[]" "js ''640''" "js ''480''"]
    free_text_defaults [of ?t "[(2, js ''450''), (1, js ''350'')]"
      "[(2, js ''60''), (1, js ''30'')]" "[(2, js ''60''), (1, js ''30'')]" "[(1, js ''JPEG'')]"
      "js ''640''" "js ''480''"]
  show ?thesis by simp
qed

text \<open>
  C9. Whenever the request stored an uploaded file, the file is not among the files left
  when the handler is done, whatever the library does: on the response with
  \<open>valid = true\<close>, on the response with \<open>valid = false\<close>, and on the error response.
\<close>

theorem uploaded_file_removed:
  "file_path req = Some p \<Longrightarrow> p \<notin> snd (snd (process_handler env req files))"
  by (auto simp: process_handler_def process_try_def unlink_def Let_def
      split: sum.splits option.splits prod.splits if_splits jsrules.splits)

theorem uploaded_file_removed_witness:
  "(\<exists>cs res. process_handler (stub_sharp flat_size)
       \<lparr>file_path = Some ''upload'', preset = Some (js ''photo''), ruleText = None\<rparr>
       {''upload'', ''other''} = (cs, Json res, {''other''}) \<and> valid res)
   \<and> (\<exists>cs res. process_handler (stub_sharp flat_size)
       \<lparr>file_path = Some ''upload'', preset = Some (js ''signature''), ruleText = None\<rparr>
       {''upload'', ''other''} = (cs, Json res, {''other''}) \<and> \<not> valid res)
   \<and> (\<exists>cs e. process_handler broken_sharp
       \<lparr>file_path = Some ''upload'', preset = Some (js ''photo''), ruleText = None\<rparr>
       {''upload'', ''other''} = (cs, Status500 e, {''other''}))
   \<and> (\<exists>cs e. process_handler (stub_sharp flat_size)
       \<lparr>file_path = Some ''upload'', preset = Some (js ''constructor''), ruleText = None\<rparr>
       {''upload'', ''other''} = (cs, Status500 e, {''other''}))
   \<and> ''upload'' \<notin> snd (snd (process_handler (stub_sharp flat_size)
       \<lparr>file_path = Some ''upload'', preset = Some (js ''photo''), ruleText = None\<rparr>
       {''upload'', ''other''}))
   \<and> ''upload'' \<notin> snd (snd (process_handler (stub_sharp flat_size)
       \<lparr>file_path = Some ''upload'', preset = Some (js ''signature''), ruleText = None\<rparr>
       {''upload'', ''other''}))
   \<and> ''upload'' \<notin> snd (snd (process_handler broken_sharp
       \<lparr>file_path = Some ''upload'', preset = Some (js ''photo''), ruleText = None\<rparr>
       {''upload'', ''other''}))
   \<and> ''upload'' \<notin> snd (snd (process_handler (stub_sharp flat_size)
       \<lparr>file_path = Some ''upload'', preset = Some (js ''constructor''), ruleText = None\<rparr>
       {''upload'', ''other''}))"
proof -
  let ?photo = "\<lparr>file_path = Some ''upload'', preset = Some (js ''photo''), ruleText = None\<rparr>"
  let ?signature = "\<lparr>file_path = Some ''upload'', preset = Some (js ''signature''),
                      ruleText = None\<rparr>"
  let ?constructor = "\<lparr>file_path = Some ''upload'', preset = Some (js ''constructor''),
                        ruleText = None\<rparr>"
  have f: "file_path ?photo = Some ''upload''" "file_path ?signature = Some ''upload''"
    "file_path ?constructor = Some ''upload''"
    by simp_all
  note uploaded_file_removed [OF f(1), of "stub_sharp flat_size" "{''upload'', ''other''}"]
    uploaded_file_removed [OF f(2), of "stub_sharp flat_size" "{''upload'', ''other''}"]
    uploaded_file_removed [OF f(1), of broken_sharp "{''upload'', ''other''}"]
    uploaded_file_removed [OF f(3), of "stub_sharp flat_size" "{''upload'', ''other''}"]
  then show ?thesis
    by (simp add: handler_backend_flat handler_backend_flat_signature handler_broken
        handler_inherited)
qed

text \<open>
  C10. The text \<open>50-20kb\<close> parses to \<open>minKb = 50\<close> and \<open>maxKb = 20\<close> in both parsers. For
  any two numbers written in digits, the text of the first, a hyphen, the second and
  \<open>kb\<close> parses to \<open>minKb\<close> what \<open>parseInt\<close> reads in the first and \<open>maxKb\<close> what it reads in
  the second, whichever is greater; when the first is greater than the second and below
  \<open>2^53\<close>, these are the two integers themselves, \<open>minKb\<close> the greater. From \<open>2^53\<close> on,
  \<open>parseInt\<close> rounds, and two numbers that differ may be read as the same double: nothing
  is stated about their order. Whenever the size search matches, the two numbers it
  captured are returned in the order of the text.
\<close>

theorem reversed_range_passes_through:
  "parseRuleText (js ''50-20kb'')
     = \<lparr>width = Num 200, height = Num 230, minKb = Num 50, maxKb = Num 20, format = js ''jpg''\<rparr>
   \<and> parseCustomRule (js ''50-20kb'')
     = \<lparr>width = Num 200, height = Num 230, minKb = Num 50, maxKb = Num 20, format = js ''jpg''\<rparr>
   \<and> (a \<noteq> [] \<and> b \<noteq> [] \<and> (\<forall>c\<in>set (a @ b). is_digit c) \<longrightarrow>
        minKb (parseRuleText (a @ js ''-'' @ b @ js ''kb'')) = parseInt a
        \<and> maxKb (parseRuleText (a @ js ''-'' @ b @ js ''kb'')) = parseInt b
        \<and> minKb (parseCustomRule (a @ js ''-'' @ b @ js ''kb'')) = parseInt a
        \<and> maxKb (parseCustomRule (a @ js ''-'' @ b @ js ''kb'')) = parseInt b)
   \<and> (a \<noteq> [] \<and> b \<noteq> [] \<and> (\<forall>c\<in>set (a @ b). is_digit c)
      \<and> decimal b < decimal a \<and> decimal a < 9007199254740992 \<longrightarrow>
        minKb (parseRuleText (a @ js ''-'' @ b @ js ''kb'')) = Num (decimal a)
        \<and> maxKb (parseRuleText (a @ js ''-'' @ b @ js ''kb'')) = Num (decimal b)
        \<and> minKb (parseCustomRule (a @ js ''-'' @ b @ js ''kb'')) = Num (decimal a)
        \<and> maxKb (parseCustomRule (a @ js ''-'' @ b @ js ''kb'')) = Num (decimal b))
   \<and> (sizeMatch backend_dashes t = Some m \<longrightarrow>
        minKb (parseRuleText t) = parseInt (grp m 1) \<and> maxKb (parseRuleText t) = parseInt (grp m 2))
   \<and> (sizeMatch frontend_dashes t = Some m \<longrightarrow>
        minKb (parseCustomRule t) = parseInt (grp m 1)
        \<and> maxKb (parseCustomRule t) = parseInt (grp m 2))"
proof -
  have range: "minKb (parseRuleText (a @ js ''-'' @ b @ js ''kb'')) = parseInt a
        \<and> maxKb (parseRuleText (a @ js ''-'' @ b @ js ''kb'')) = parseInt b
        \<and> minKb (parseCustomRule (a @ js ''-'' @ b @ js ''kb'')) = parseInt a
        \<and> maxKb (parseCustomRule (a @ js ''-'' @ b @ js ''kb'')) = parseInt b"
    if ab: "a \<noteq> [] \<and> b \<noteq> [] \<and> (\<forall>c\<in>set (a @ b). is_digit c)"
  proof -
    from ab have d: "a \<noteq> []" "\<forall>c\<in>set a. is_digit c" "b \<noteq> []" "\<forall>c\<in>set b. is_digit c"
      by auto
    from range_parse [OF d, of backend_dashes] range_parse [OF d, of frontend_dashes]
    show ?thesis
      by (simp add: parseRuleText_def parseCustomRule_def backend_dashes_def
          frontend_dashes_def)
  qed
  have 1: "parseRuleText (js ''50-20kb'')
     = \<lparr>width = Num 200, height = Num 230, minKb = Num 50, maxKb = Num 20, format = js ''jpg''\<rparr>"
    by (simp add: parse_defs rx_defs)
  have 2: "parseCustomRule (js ''50-20kb'')
     = \<lparr>width = Num 200, height = Num 230, minKb = Num 50, maxKb = Num 20, format = js ''jpg''\<rparr>"
    by (simp add: parse_defs rx_defs)
  have 3: "sizeMatch backend_dashes t = Some m \<longrightarrow>
        minKb (parseRuleText t) = parseInt (grp m 1) \<and> maxKb (parseRuleText t) = parseInt (grp m 2)"
    by (simp add: parseRuleText_def parse_rules_def)
  have 4: "sizeMatch frontend_dashes t = Some m \<longrightarrow>
        minKb (parseCustomRule t) = parseInt (grp m 1)
        \<and> maxKb (parseCustomRule t) = parseInt (grp m 2)"
    by (simp add: parseCustomRule_def parse_rules_def)
  have 5: "a \<noteq> [] \<and> b \<noteq> [] \<and> (\<forall>c\<in>set (a @ b). is_digit c)
      \<and> decimal b < decimal a \<and> decimal a < 9007199254740992 \<longrightarrow>
        minKb (parseRuleText (a @ js ''-'' @ b @ js ''kb'')) = Num (decimal a)
        \<and> maxKb (parseRuleText (a @ js ''-'' @ b @ js ''kb'')) = Num (decimal b)
        \<and> minKb (parseCustomRule (a @ js ''-'' @ b @ js ''kb'')) = Num (decimal a)
        \<and> maxKb (parseCustomRule (a @ js ''-'' @ b @ js ''kb'')) = Num (decimal b)"
    using range by (simp add: parseInt_def)
  from 1 2 3 4 5 range show ?thesis by blast
qed

theorem reversed_range_passes_through_witness:
  "js ''50'' \<noteq> [] \<and> js ''20'' \<noteq> [] \<and> list_all is_digit (js ''50'' @ js ''20'')
   \<and> decimal (js ''50'') = 50 \<and> decimal (js ''20'') = 20
   \<and> parseInt (js ''50'') = Num 50 \<and> parseInt (js ''20'') = Num 20
   \<and> sizeMatch backend_dashes (js ''50-20kb'') = Some [(2, js ''20''), (1, js ''50'')]
   \<and> sizeMatch frontend_dashes (js ''50-20kb'') = Some [(2, js ''20''), (1, js ''50'')]
   \<and> minKb (parseRuleText (js ''50'' @ js ''-'' @ js ''20'' @ js ''kb'')) = Num 50
   \<and> maxKb (parseRuleText (js ''50'' @ js ''-'' @ js ''20'' @ js ''kb'')) = Num 20
   \<and> minKb (parseCustomRule (js ''50'' @ js ''-'' @ js ''20'' @ js ''kb'')) = Num 50
   \<and> maxKb (parseCustomRule (js ''50'' @ js ''-'' @ js ''20'' @ js ''kb'')) = Num 20"
proof -
  have h: "js ''50'' \<noteq> [] \<and> js ''20'' \<noteq> [] \<and> (\<forall>c\<in>set (js ''50'' @ js ''20''). is_digit c)"
    by (simp add: js_def is_digit_def)
  have v: "decimal (js ''50'') = 50" "decimal (js ''20'') = 20"
    "parseInt (js ''50'') = Num 50" "parseInt (js ''20'') = Num 20"
    by (simp_all add: js_def parseInt_def decimal_def)
  have m: "sizeMatch backend_dashes (js ''50-20kb'') = Some [(2, js ''20''), (1, js ''50'')]"
    "sizeMatch frontend_dashes (js ''50-20kb'') = Some [(2, js ''20''), (1, js ''50'')]"
    by (simp_all add: parse_defs rx_defs)
  from h have "list_all is_digit (js ''50'' @ js ''20'')"
    by (simp add: list_all_iff)
  with h v m reversed_range_passes_through [of "js ''50''" "js ''20''" "js ''50-20kb''"
      "[(2, js ''20''), (1, js ''50'')]"]
  show ?thesis
    by simp
qed

end
